theory Spec2Isabelle
  imports Main "HOL-Library.Word"
begin

unbundle bit_operations_syntax

section \<open>Machine types\<close>

type_synonym u8 = "8 word"
type_synonym u16 = "16 word"
type_synonym u32 = "32 word"
type_synonym u64 = "64 word"

section \<open>The target model: VMAs (src/utils/task.c)\<close>

datatype vma_type =
    VMA_NONE | VMA_SELF | VMA_LIBC | VMA_LIBELF | VMA_HEAP | VMA_LD | VMA_STACK
  | VMA_VVAR | VMA_VDSO | VMA_VSYSCALL | VMA_LIB_DONT_KNOWN | VMA_ANON

text \<open>
  \<^verbatim>\<open>GElf_Ehdr\<close> (the fields task.c reads) and \<^verbatim>\<open>GElf_Phdr\<close>.
\<close>

record GElf_Ehdr =
  e_ident :: "u8 list"
  e_type :: u16
  e_phoff :: u64
  e_phnum :: u16

record GElf_Phdr =
  p_type :: u32
  p_flags :: u32
  p_offset :: u64
  p_vaddr :: u64
  p_paddr :: u64
  p_filesz :: u64
  p_memsz :: u64
  p_align :: u64

record vma_elf =
  elf_ehdr :: GElf_Ehdr
  elf_phdrs :: "GElf_Phdr list"
  elf_load_offset :: u64

text \<open>
  The pointer \<^verbatim>\<open>vma->elf\<close>: null, pointing to a live \<^verbatim>\<open>struct vma_elf\<close>, or left
  dangling by a \<^verbatim>\<open>free\<close> (not null, content gone).
\<close>

datatype elf_ptr = Null | Dangling | Ptr vma_elf

text \<open>
  \<^verbatim>\<open>struct vma_struct\<close>, restricted to the fields task.c reads or writes. A pointer to
  a VMA is the index of the VMA in the task's arena (allocation order), \<open>None\<close> the null
  pointer. The C fields \<^verbatim>\<open>start\<close>, \<^verbatim>\<open>end\<close>, \<^verbatim>\<open>name_\<close>, ... carry the prefix \<open>vma_\<close>
  here. \<open>vma_siblings\<close> of a leader lists, in the order \<^verbatim>\<open>list_for_each_entry\<close> visits
  them from the leader's \<^verbatim>\<open>siblings\<close> head, the VMAs linked into its ring.
\<close>

record vma_struct =
  vma_start :: u64
  vma_end :: u64
  vma_perms :: string
  vma_prot :: u32
  vma_offset :: u64
  vma_voffset :: u64
  vma_maj :: u32
  vma_min :: u32
  vma_inode :: u32
  vma_name :: string
  vma_type :: vma_type
  vma_is_elf :: bool
  vma_is_share_lib :: bool
  vma_elf :: elf_ptr
  vma_leader :: "nat option"
  vma_siblings :: "nat list"

subsection \<open>find_vma_span_area\<close>

text \<open>
  The loop of \<^verbatim>\<open>find_vma_span_area\<close> walks the red-black tree \<^verbatim>\<open>task->vmas_rb\<close> with
  \<^verbatim>\<open>rb_first\<close>/\<^verbatim>\<open>rb_next\<close>; the argument list is that in-order walk. The subtraction
  \<^verbatim>\<open>next_vma->start - ivma->end\<close> is on \<^verbatim>\<open>unsigned long\<close> and wraps.
\<close>

fun find_vma_span_area :: "vma_struct list \<Rightarrow> u64 \<Rightarrow> u64" where
  "find_vma_span_area [] sz = 0"
| "find_vma_span_area [ivma] sz = 0"
| "find_vma_span_area (ivma # next_vma # rest) sz =
     (if sz \<le> vma_start next_vma - vma_end ivma then vma_end ivma
      else find_vma_span_area (next_vma # rest) sz)"

text \<open>
  The tree invariant of the specification: the VMAs are in ascending order and do not
  overlap, so each VMA ends no later than its successor starts.
\<close>

definition vmas_ascending :: "vma_struct list \<Rightarrow> bool" where
  "vmas_ascending vs =
     (\<forall>i. Suc i < length vs \<longrightarrow> vma_end (vs ! i) \<le> vma_start (vs ! Suc i))"

text \<open>
  The specification's words: VMA number \<open>i\<close> is followed by a gap of at least \<open>sz\<close>
  bytes, counted in unbounded naturals.
\<close>

definition span_gap :: "vma_struct list \<Rightarrow> u64 \<Rightarrow> nat \<Rightarrow> bool" where
  "span_gap vs sz i =
     (Suc i < length vs \<and> unat (vma_end (vs ! i)) + unat sz \<le> unat (vma_start (vs ! Suc i)))"

definition mk_vma :: "u64 \<Rightarrow> u64 \<Rightarrow> vma_struct" where
  "mk_vma s e = \<lparr>vma_start = s, vma_end = e, vma_perms = [], vma_prot = 0,
     vma_offset = 0, vma_voffset = 0, vma_maj = 0, vma_min = 0, vma_inode = 0,
     vma_name = [], vma_type = VMA_NONE, vma_is_elf = False, vma_is_share_lib = False,
     vma_elf = Null, vma_leader = None, vma_siblings = []\<rparr>"

section \<open>Remote operations (src/utils/task.c)\<close>

subsection \<open>The target process as the controller sees it\<close>

text \<open>
  \<^verbatim>\<open>struct user_regs_struct\<close> of x86-64 (the \<^verbatim>\<open>__x86_64__\<close> branch of every \<^verbatim>\<open>#if\<close>):
  one 64-bit value per field.
\<close>

datatype reg =
    R15 | R14 | R13 | R12 | RBP | RBX | R11 | R10 | R9 | R8 | RAX | RCX | RDX | RSI | RDI
  | ORIG_RAX | RIP | CS | EFLAGS | RSP | SS | FS_BASE | GS_BASE | DS | ES | FS | GS

type_synonym user_regs_struct = "reg \<Rightarrow> u64"

record target =
  t_regs :: user_regs_struct
  t_mem :: "u64 \<Rightarrow> u8"

text \<open>
  A ptrace request returns 0, or -1 with \<^verbatim>\<open>errno\<close> set; \<open>PtraceErr e\<close> carries the value
  that \<^verbatim>\<open>-errno\<close> reads afterwards.
\<close>

datatype ptrace_ret = PtraceOk | PtraceErr nat

text \<open>
  What one \<^verbatim>\<open>pread\<close>/\<^verbatim>\<open>pwrite\<close> on \<^verbatim>\<open>/proc/PID/mem\<close> returns: the byte count (or a
  value \<open>\<le> 0\<close>), and the \<^verbatim>\<open>errno\<close> read when it is \<open>\<le> 0\<close>.
\<close>

record pio =
  pio_ret :: int
  pio_errno :: nat

definition read_bytes :: "(u64 \<Rightarrow> u8) \<Rightarrow> u64 \<Rightarrow> nat \<Rightarrow> u8 list" where
  "read_bytes m a n = map (\<lambda>i. m (a + of_nat i)) [0..<n]"

definition write_bytes :: "(u64 \<Rightarrow> u8) \<Rightarrow> u64 \<Rightarrow> u8 list \<Rightarrow> (u64 \<Rightarrow> u8)" where
  "write_bytes m a bs = (\<lambda>x. if unat (x - a) < length bs then bs ! unat (x - a) else m x)"

text \<open>
  \<^verbatim>\<open>memcpy_from_task\<close>: \<open>dst\<close> is the buffer's content before the call; the bytes the
  \<^verbatim>\<open>pread\<close> transferred replace its head. The result is the return value and the buffer.
\<close>

definition memcpy_from_task :: "target \<Rightarrow> pio \<Rightarrow> u8 list \<Rightarrow> u64 \<Rightarrow> nat \<Rightarrow> int \<times> u8 list" where
  "memcpy_from_task t io dst task_src sz =
     (if pio_ret io \<le> 0 then (- int (pio_errno io), dst)
      else let k = min (nat (pio_ret io)) sz
           in (int k, read_bytes (t_mem t) task_src k @ drop k dst))"

definition memcpy_to_task :: "target \<Rightarrow> pio \<Rightarrow> u64 \<Rightarrow> u8 list \<Rightarrow> nat \<Rightarrow> int \<times> target" where
  "memcpy_to_task t io task_dst src sz =
     (if pio_ret io \<le> 0 then (- int (pio_errno io), t)
      else let k = min (nat (pio_ret io)) sz
           in (int k, t\<lparr>t_mem := write_bytes (t_mem t) task_dst (take k src)\<rparr>))"

subsection \<open>Architecture macros\<close>

text \<open>
  Modelled from the spec: the macros \<^verbatim>\<open>SYSCALL_INSTR\<close>, \<^verbatim>\<open>SYSCALL_REGS_PREPARE\<close>,
  \<^verbatim>\<open>SYSCALL_IP\<close> and \<^verbatim>\<open>SYSCALL_RET\<close> of \<^verbatim>\<open>arch/x86_64/regs.h\<close> are not among the
  sources. The specification gives the syscall instruction bytes \<^verbatim>\<open>0F 05\<close>, has
  \<^verbatim>\<open>regs_prepare\<close> write the syscall number and the six arguments into the registers
  of the syscall ABI (rax; rdi, rsi, rdx, r10, r8, r9), and names the program counter
  and the return-value register as what \<^verbatim>\<open>syscall_ip\<close> and \<^verbatim>\<open>syscall_ret\<close> access.
\<close>

definition SYSCALL_INSTR :: "u8 list" where
  "SYSCALL_INSTR = [0x0f, 0x05]"

definition SYSCALL_REGS_PREPARE ::
  "user_regs_struct \<Rightarrow> u64 \<Rightarrow> u64 \<Rightarrow> u64 \<Rightarrow> u64 \<Rightarrow> u64 \<Rightarrow> u64 \<Rightarrow> u64 \<Rightarrow> user_regs_struct" where
  "SYSCALL_REGS_PREPARE r nr a1 a2 a3 a4 a5 a6 =
     r(RAX := nr, RDI := a1, RSI := a2, RDX := a3, R10 := a4, R8 := a5, R9 := a6)"

definition SYSCALL_IP :: reg where "SYSCALL_IP = RIP"

definition SYSCALL_RET :: reg where "SYSCALL_RET = RAX"

definition copy_regs :: "user_regs_struct \<Rightarrow> user_regs_struct \<Rightarrow> user_regs_struct" where
  "copy_regs dst src =
     dst(R15 := src R15, R14 := src R14, R13 := src R13, R12 := src R12, RBP := src RBP,
         RBX := src RBX, R11 := src R11, R10 := src R10, R9 := src R9, R8 := src R8,
         RAX := src RAX, RCX := src RCX, RDX := src RDX, RSI := src RSI, RDI := src RDI)"

subsection \<open>wait_for_stop\<close>

definition SIGTRAP :: nat where "SIGTRAP = 5"

definition SIGSEGV :: nat where "SIGSEGV = 11"

definition SIGSTOP :: nat where "SIGSTOP = 19"

text \<open>
  One round of the loop of \<^verbatim>\<open>wait_for_stop\<close>, as the environment decides it: the
  \<^verbatim>\<open>PTRACE_CONT\<close> fails; or the target runs (the function is what running does to its
  registers and memory) and \<^verbatim>\<open>waitpid\<close> fails, reports a stop by a signal, a
  termination by a signal, or anything else. The signal that the next \<^verbatim>\<open>PTRACE_CONT\<close>
  injects (\<^verbatim>\<open>status\<close>) only steers what the target does next, which the next event
  supplies. A list that runs out before the loop leaves it is a call that does not
  return: \<open>None\<close>.
\<close>

datatype wait_event =
    ContFails
  | WaitFails "target \<Rightarrow> target"
  | WaitStopped nat "target \<Rightarrow> target"
  | WaitSignaled nat "target \<Rightarrow> target"
  | WaitOther "target \<Rightarrow> target"

fun wait_for_stop :: "wait_event list \<Rightarrow> target \<Rightarrow> (int \<times> target) option" where
  "wait_for_stop [] t = None"
| "wait_for_stop (ContFails # es) t = Some (- 1, t)"
| "wait_for_stop (WaitFails run # es) t = Some (- 1, run t)"
| "wait_for_stop (WaitStopped sig run # es) t =
     (if sig = SIGSTOP \<or> sig = SIGTRAP then Some (0, run t)
      else if sig = SIGSEGV then Some (- 1, run t)
      else wait_for_stop es (run t))"
| "wait_for_stop (WaitSignaled sig run # es) t = wait_for_stop es (run t)"
| "wait_for_stop (WaitOther run # es) t = wait_for_stop es (run t)"

subsection \<open>task_syscall\<close>

text \<open>
  Everything one call of \<^verbatim>\<open>task_syscall\<close> takes from outside: the content of the
  caller's uninitialised \<^verbatim>\<open>result\<close> variable and of the uninitialised locals
  \<^verbatim>\<open>syscall_regs\<close> and \<^verbatim>\<open>orig_code\<close>, and the outcome of each ptrace request and of each
  access to \<^verbatim>\<open>/proc/PID/mem\<close>, in program order.
\<close>

record syscall_env =
  e_result :: u64
  e_syscall_regs :: user_regs_struct
  e_orig_code :: "u8 list"
  e_getregs_old :: ptrace_ret
  e_peek_orig :: pio
  e_poke_instr :: pio
  e_setregs_new :: ptrace_ret
  e_wait :: "wait_event list"
  e_getregs_res :: ptrace_ret
  e_setregs_old :: ptrace_ret
  e_poke_back :: pio

text \<open>The label \<^verbatim>\<open>poke_back\<close>: write \<^verbatim>\<open>orig_code\<close> back and return \<^verbatim>\<open>ret\<close>.\<close>

definition poke_back ::
  "syscall_env \<Rightarrow> u64 \<Rightarrow> u8 list \<Rightarrow> int \<Rightarrow> u64 \<Rightarrow> target \<Rightarrow> (int \<times> u64 \<times> target) option" where
  "poke_back env libc_base orig_code ret res t =
     Some (ret, res,
       snd (memcpy_to_task t (e_poke_back env) libc_base orig_code (length SYSCALL_INSTR)))"

text \<open>
  \<^verbatim>\<open>task_syscall\<close>. \<open>libc_base\<close> is \<^verbatim>\<open>task->libc_vma->start\<close> and \<open>res\<close> the content of
  \<^verbatim>\<open>*res\<close> before the call; the result is the return value, the content of \<^verbatim>\<open>*res\<close>
  afterwards and the target.
\<close>

definition task_syscall ::
  "syscall_env \<Rightarrow> u64 \<Rightarrow> target \<Rightarrow> u64 \<Rightarrow> u64 \<Rightarrow> u64 \<Rightarrow> u64 \<Rightarrow> u64 \<Rightarrow> u64 \<Rightarrow> u64 \<Rightarrow> u64
     \<Rightarrow> (int \<times> u64 \<times> target) option" where
  "task_syscall env libc_base t nr arg1 arg2 arg3 arg4 arg5 arg6 res =
     (let syscall_regs =
            SYSCALL_REGS_PREPARE (e_syscall_regs env) nr arg1 arg2 arg3 arg4 arg5 arg6
      in case e_getregs_old env of
           PtraceErr e \<Rightarrow> Some (- int e, res, t)
         | PtraceOk \<Rightarrow>
            let old_regs = t_regs t;
                orig_code = snd (memcpy_from_task t (e_peek_orig env) (e_orig_code env)
                                   libc_base (length SYSCALL_INSTR));
                t1 = snd (memcpy_to_task t (e_poke_instr env) libc_base SYSCALL_INSTR
                            (length SYSCALL_INSTR));
                regs1 = copy_regs (old_regs(SYSCALL_IP := libc_base)) syscall_regs
            in case e_setregs_new env of
                 PtraceErr e \<Rightarrow> poke_back env libc_base orig_code (- int e) res t1
               | PtraceOk \<Rightarrow>
                  (case wait_for_stop (e_wait env) (t1\<lparr>t_regs := regs1\<rparr>) of
                     None \<Rightarrow> None
                   | Some (w, t2) \<Rightarrow>
                      if w < 0 then poke_back env libc_base orig_code w res t2
                      else case e_getregs_res env of
                             PtraceErr e \<Rightarrow> poke_back env libc_base orig_code (- int e) res t2
                           | PtraceOk \<Rightarrow>
                              let regs2 = t_regs t2
                              in case e_setregs_old env of
                                   PtraceErr e \<Rightarrow>
                                     poke_back env libc_base orig_code (- int e) res t2
                                 | PtraceOk \<Rightarrow>
                                     poke_back env libc_base orig_code 0 (regs2 SYSCALL_RET)
                                       (t2\<lparr>t_regs := old_regs\<rparr>)))"

text \<open>
  The target as \<^verbatim>\<open>task_syscall\<close> hands it to \<^verbatim>\<open>wait_for_stop\<close>: the syscall
  instruction poked at \<open>libc_base\<close>, the program counter there, the syscall registers set.
\<close>

definition syscall_entry ::
  "syscall_env \<Rightarrow> u64 \<Rightarrow> target \<Rightarrow> u64 \<Rightarrow> u64 \<Rightarrow> u64 \<Rightarrow> u64 \<Rightarrow> u64 \<Rightarrow> u64 \<Rightarrow> u64 \<Rightarrow> target" where
  "syscall_entry env libc_base t nr arg1 arg2 arg3 arg4 arg5 arg6 =
     (snd (memcpy_to_task t (e_poke_instr env) libc_base SYSCALL_INSTR (length SYSCALL_INSTR)))
       \<lparr>t_regs := copy_regs ((t_regs t)(SYSCALL_IP := libc_base))
          (SYSCALL_REGS_PREPARE (e_syscall_regs env) nr arg1 arg2 arg3 arg4 arg5 arg6)\<rparr>"

text \<open>
  A failing ptrace request leaves a positive \<^verbatim>\<open>errno\<close> (no library call stores 0 there).
\<close>

definition errno_ok :: "ptrace_ret \<Rightarrow> bool" where
  "errno_ok r = (case r of PtraceOk \<Rightarrow> True | PtraceErr e \<Rightarrow> 0 < e)"

definition errnos_positive :: "syscall_env \<Rightarrow> bool" where
  "errnos_positive env =
     (errno_ok (e_getregs_old env) \<and> errno_ok (e_setregs_new env) \<and>
      errno_ok (e_getregs_res env) \<and> errno_ok (e_setregs_old env))"

text \<open>The access transferred all \<open>n\<close> bytes asked for.\<close>

definition transfers :: "pio \<Rightarrow> nat \<Rightarrow> bool" where
  "transfers io n = (int n \<le> pio_ret io)"

subsection \<open>The marshalling wrappers\<close>

definition NR_open :: u64 where "NR_open = 2"

definition NR_mmap :: u64 where "NR_mmap = 9"

definition NR_munmap :: u64 where "NR_munmap = 11"

definition PROT_READ :: u32 where "PROT_READ = 1"

definition PROT_WRITE :: u32 where "PROT_WRITE = 2"

definition PROT_EXEC :: u32 where "PROT_EXEC = 4"

definition MAP_PRIVATE :: u32 where "MAP_PRIVATE = 2"

definition MAP_ANONYMOUS :: u32 where "MAP_ANONYMOUS = 0x20"

definition MAP_FIXED :: u32 where "MAP_FIXED = 0x10"

definition MAP_FAILED :: u64 where "MAP_FAILED = - 1"

definition O_RDWR :: u32 where "O_RDWR = 2"

definition O_CREAT :: u32 where "O_CREAT = 0x40"

text \<open>
  \<^verbatim>\<open>int\<close> arguments (\<^verbatim>\<open>prot\<close>, \<^verbatim>\<open>flags\<close>, \<^verbatim>\<open>fd\<close>) are sign-extended to the
  \<^verbatim>\<open>unsigned long\<close> parameters of \<^verbatim>\<open>task_syscall\<close>; an \<^verbatim>\<open>unsigned long\<close> returned as
  \<^verbatim>\<open>int\<close> keeps its low 32 bits.
\<close>

definition task_mmap ::
  "syscall_env \<Rightarrow> u64 \<Rightarrow> target \<Rightarrow> u64 \<Rightarrow> u64 \<Rightarrow> u32 \<Rightarrow> u32 \<Rightarrow> u32 \<Rightarrow> u64
     \<Rightarrow> (u64 \<times> target) option" where
  "task_mmap env libc_base t addr len prot flags fd off =
     (case task_syscall env libc_base t NR_mmap addr len (scast prot) (scast flags) (scast fd)
             off (e_result env) of
        None \<Rightarrow> None
      | Some (ret, result, t') \<Rightarrow> Some (if ret < 0 then 0 else result, t'))"

definition task_munmap ::
  "syscall_env \<Rightarrow> u64 \<Rightarrow> target \<Rightarrow> u64 \<Rightarrow> u64 \<Rightarrow> (int \<times> target) option" where
  "task_munmap env libc_base t addr sz =
     (case task_syscall env libc_base t NR_munmap addr sz 0 0 0 0 (e_result env) of
        None \<Rightarrow> None
      | Some (ret, result, t') \<Rightarrow>
          Some (if ret < 0 then - 1 else sint (ucast result :: u32), t'))"

definition task_malloc ::
  "syscall_env \<Rightarrow> u64 \<Rightarrow> target \<Rightarrow> u64 \<Rightarrow> (u64 \<times> target) option" where
  "task_malloc env libc_base t len =
     (case task_mmap env libc_base t 0 len (PROT_READ OR PROT_WRITE)
             (MAP_PRIVATE OR MAP_ANONYMOUS) (- 1) 0 of
        None \<Rightarrow> None
      | Some (remote_addr, t') \<Rightarrow>
          Some (if remote_addr = MAP_FAILED then 0 else remote_addr, t'))"

definition task_free ::
  "syscall_env \<Rightarrow> u64 \<Rightarrow> target \<Rightarrow> u64 \<Rightarrow> u64 \<Rightarrow> (int \<times> target) option" where
  "task_free env libc_base t addr len = task_munmap env libc_base t addr len"

text \<open>The bytes of a C string, with its terminating NUL.\<close>

definition cstring :: "string \<Rightarrow> u8 list" where
  "cstring s = map (\<lambda>c. of_nat (of_char c)) s @ [0]"

text \<open>
  What \<^verbatim>\<open>task_open\<close> takes from outside: \<^verbatim>\<open>readlink\<close> and \<^verbatim>\<open>realpath\<close> on the
  controller's file system (\<open>None\<close> when the call fails), the environments of its three
  remote syscalls and the outcome of copying the path into the target.
\<close>

record open_env =
  o_readlink :: "string \<Rightarrow> string option"
  o_realpath :: "string \<Rightarrow> string option"
  o_malloc :: syscall_env
  o_copy :: pio
  o_open :: syscall_env
  o_free :: syscall_env

definition task_open ::
  "open_env \<Rightarrow> u64 \<Rightarrow> target \<Rightarrow> string \<Rightarrow> u32 \<Rightarrow> u32 \<Rightarrow> (int \<times> target) option" where
  "task_open oe libc_base t pathname flags mode =
     (case (if (flags OR O_CREAT) = 0
            then (case o_readlink oe pathname of
                    None \<Rightarrow> Inl (- 1)
                  | Some maybeislink \<Rightarrow>
                      (case o_realpath oe maybeislink of
                         None \<Rightarrow> Inl (- 1)
                       | Some path \<Rightarrow> Inr path))
            else Inr pathname) of
        Inl e \<Rightarrow> Some (e, t)
      | Inr pathname' \<Rightarrow>
          let remote_filename_len = length pathname' + 1
          in case task_malloc (o_malloc oe) libc_base t (of_nat remote_filename_len) of
               None \<Rightarrow> None
             | Some (remote_fileaddr, t1) \<Rightarrow>
                 let t2 = snd (memcpy_to_task t1 (o_copy oe) remote_fileaddr
                                 (cstring pathname') remote_filename_len)
                 in case task_syscall (o_open oe) libc_base t2 NR_open remote_fileaddr
                           (scast flags) (ucast mode) 0 0 0 (e_result (o_open oe)) of
                      None \<Rightarrow> None
                    | Some (ret, result, t3) \<Rightarrow>
                        (case task_free (o_free oe) libc_base t3 remote_fileaddr
                                (of_nat remote_filename_len) of
                           None \<Rightarrow> None
                         | Some (freed, t4) \<Rightarrow> Some (sint (ucast result :: u32), t4)))"

subsection \<open>Concrete targets and environments\<close>

definition pio_of :: "nat \<Rightarrow> pio" where
  "pio_of n = \<lparr>pio_ret = int n, pio_errno = 0\<rparr>"

text \<open>A stopped target, with the first two bytes of libc's text at \<open>0x7f0000028000\<close>.\<close>

definition target_idle :: target where
  "target_idle = \<lparr>t_regs = (\<lambda>r. 0)(RIP := 0x401020, RSP := 0x7ffc00001000),
                   t_mem = (\<lambda>a. 0)(0x7f0000028000 := 0xf3, 0x7f0000028001 := 0x0f)\<rparr>"

text \<open>
  The kernel runs the two-byte syscall instruction and returns \<open>v\<close>: rax holds \<open>v\<close>, rcx
  and r11 the return address and the flags, the program counter is past the instruction.
\<close>

definition syscall_returns :: "u64 \<Rightarrow> target \<Rightarrow> target" where
  "syscall_returns v t =
     t\<lparr>t_regs := (t_regs t)(RAX := v, RCX := t_regs t RIP + 2, R11 := t_regs t EFLAGS,
                               RIP := t_regs t RIP + 2)\<rparr>"

text \<open>Every request succeeds and the syscall returns \<open>v\<close>.\<close>

definition env_returning :: "u64 \<Rightarrow> syscall_env" where
  "env_returning v = \<lparr>e_result = 0, e_syscall_regs = (\<lambda>r. 0), e_orig_code = [0, 0],
     e_getregs_old = PtraceOk, e_peek_orig = pio_of 2, e_poke_instr = pio_of 2,
     e_setregs_new = PtraceOk, e_wait = [WaitStopped SIGTRAP (syscall_returns v)],
     e_getregs_res = PtraceOk, e_setregs_old = PtraceOk, e_poke_back = pio_of 2\<rparr>"

text \<open>The syscall registers are installed, then \<^verbatim>\<open>PTRACE_CONT\<close> fails.\<close>

definition env_cont_fails :: syscall_env where
  "env_cont_fails = \<lparr>e_result = 0, e_syscall_regs = (\<lambda>r. 0), e_orig_code = [0, 0],
     e_getregs_old = PtraceOk, e_peek_orig = pio_of 2, e_poke_instr = pio_of 2,
     e_setregs_new = PtraceOk, e_wait = [ContFails], e_getregs_res = PtraceOk,
     e_setregs_old = PtraceOk, e_poke_back = pio_of 2\<rparr>"

text \<open>
  \<^verbatim>\<open>/tmp/link\<close> is a symbolic link to \<^verbatim>\<open>/tmp/real\<close>; the remote mmap returns
  \<open>0x7f1000000000\<close>, the remote open the descriptor 3 and the remote munmap 0.
\<close>

definition oe_symlink :: open_env where
  "oe_symlink = \<lparr>
     o_readlink = (\<lambda>p. if p = ''/tmp/link'' then Some ''/tmp/real'' else None),
     o_realpath = (\<lambda>p. Some p),
     o_malloc = env_returning 0x7f1000000000,
     o_copy = pio_of 10,
     o_open = env_returning 3,
     o_free = env_returning 0\<rparr>"

section \<open>ELF notes (src/elf/note.c)\<close>

text \<open>
  \<^verbatim>\<open>struct elf_file\<close>, restricted to the field \<^verbatim>\<open>build_id\<close>: \<open>None\<close> is the null pointer,
  \<open>Some b\<close> the content of the heap block the pointer refers to.
\<close>

record elf_file =
  elf_build_id :: "char list option"

definition NT_VERSION :: u32 where "NT_VERSION = 1"
definition NT_GNU_BUILD_ID :: u32 where "NT_GNU_BUILD_ID = 3"
definition NT_GNU_BUILD_ATTRIBUTE_OPEN :: u32 where "NT_GNU_BUILD_ATTRIBUTE_OPEN = 0x100"
definition NT_GNU_BUILD_ATTRIBUTE_FUNC :: u32 where "NT_GNU_BUILD_ATTRIBUTE_FUNC = 0x101"
definition ELF_NOTE_GNU_BUILD_ATTRIBUTE_PREFIX :: string where
  "ELF_NOTE_GNU_BUILD_ATTRIBUTE_PREFIX = ''GA''"

text \<open>
  \<^verbatim>\<open>sprintf(v, "%02x", (uint8_t) desc[i])\<close> writes two lowercase hexadecimal digits and a
  NUL into \<^verbatim>\<open>v\<close>.
\<close>

definition NUL :: char where "NUL = CHR 0x00"

definition hex_digit :: "nat \<Rightarrow> char" where
  "hex_digit n = ''0123456789abcdef'' ! n"

definition sprintf_02x :: "u8 \<Rightarrow> char list" where
  "sprintf_02x b = [hex_digit (unat b div 16), hex_digit (unat b mod 16), NUL]"

text \<open>
  A write into the block \<^verbatim>\<open>malloc\<close> returned: outside the block (and reading \<^verbatim>\<open>desc\<close>
  outside the descriptor) the C program has no defined behaviour, which is \<open>None\<close>.
\<close>

definition store :: "nat \<Rightarrow> char \<Rightarrow> char list \<Rightarrow> char list option" where
  "store i c buf = (if i < length buf then Some (buf[i := c]) else None)"

definition put_hex :: "u8 list \<Rightarrow> nat \<Rightarrow> char list \<Rightarrow> char list option" where
  "put_hex desc i build_id =
     (if i < length desc
      then let v = sprintf_02x (desc ! i)
           in case store (i * 2) (v ! 0) build_id of
                None \<Rightarrow> None
              | Some b \<Rightarrow> store (i * 2 + 1) (v ! 1) b
      else None)"

text \<open>
  The body of \<^verbatim>\<open>for (i = 0; i < descsz - 1; ++i)\<close>, run for the indices of the list.
\<close>

primrec build_id_loop :: "u8 list \<Rightarrow> nat list \<Rightarrow> char list \<Rightarrow> char list option" where
  "build_id_loop desc [] build_id = Some build_id"
| "build_id_loop desc (i # is) build_id =
     (case put_hex desc i build_id of
        None \<Rightarrow> None
      | Some b \<Rightarrow> build_id_loop desc is b)"

text \<open>
  The \<^verbatim>\<open>NT_GNU_BUILD_ID\<close> case. \<^verbatim>\<open>malloc(descsz * 2 + 1)\<close> computes its size in 32-bit
  unsigned arithmetic; \<open>junk\<close> is the content of the fresh block. After the loop \<^verbatim>\<open>i\<close> is
  \<^verbatim>\<open>descsz - 1\<close>: the last byte is converted, and the NUL stored at \<^verbatim>\<open>i * 2 + 2\<close>.
\<close>

definition note_build_id :: "(nat \<Rightarrow> char) \<Rightarrow> u32 \<Rightarrow> u8 list \<Rightarrow> char list option" where
  "note_build_id junk descsz desc =
     (let build_id = map junk [0..<unat (descsz * 2 + 1)];
          n = unat (descsz - 1)
      in case build_id_loop desc [0..<n] build_id of
           None \<Rightarrow> None
         | Some b1 \<Rightarrow>
             (case put_hex desc n b1 of
                None \<Rightarrow> None
              | Some b2 \<Rightarrow> store (n * 2 + 2) NUL b2))"

text \<open>
  \<^verbatim>\<open>elf_object_note\<close>: the branches that only print leave the \<^verbatim>\<open>elf_file\<close> as it is.
\<close>

definition elf_object_note ::
  "(nat \<Rightarrow> char) \<Rightarrow> elf_file \<Rightarrow> u32 \<Rightarrow> string \<Rightarrow> u32 \<Rightarrow> u32 \<Rightarrow> u8 list \<Rightarrow> elf_file option" where
  "elf_object_note junk elf namesz name ntype descsz desc =
     (if name = ''stapsdt'' then Some elf
      else if take (length ELF_NOTE_GNU_BUILD_ATTRIBUTE_PREFIX) name
                = ELF_NOTE_GNU_BUILD_ATTRIBUTE_PREFIX
              \<and> (ntype = NT_GNU_BUILD_ATTRIBUTE_OPEN \<or> ntype = NT_GNU_BUILD_ATTRIBUTE_FUNC)
           then Some elf
      else if descsz = 0 \<and> ntype = NT_VERSION then Some elf
      else if name \<noteq> ''GNU'' then Some elf
      else if ntype = NT_GNU_BUILD_ID
           then (if name = ''GNU'' \<and> 0 < descsz
                 then map_option (\<lambda>b. elf\<lparr>elf_build_id := Some b\<rparr>)
                        (note_build_id junk descsz desc)
                 else Some elf)
      else Some elf)"

text \<open>
  The specification's words: the descriptor bytes as lowercase hexadecimal, two digits
  per byte, in order.
\<close>

definition lower_hex :: "u8 list \<Rightarrow> string" where
  "lower_hex bs = concat (map (\<lambda>b. [hex_digit (unat b div 16), hex_digit (unat b mod 16)]) bs)"

text \<open>A descriptor of \<open>2^31\<close> bytes.\<close>

definition desc_2g :: "u8 list" where
  "desc_2g = replicate (2 ^ 31) 0"

subsection \<open>Classifying a maps line\<close>

text \<open>\<^verbatim>\<open>perms[k]\<close> of the zero-filled \<^verbatim>\<open>char perms[5]\<close> that \<^verbatim>\<open>sscanf\<close> wrote the string to.\<close>

definition char_at :: "string \<Rightarrow> nat \<Rightarrow> char" where
  "char_at s k = (if k < length s then s ! k else CHR 0x00)"

definition perms2prot :: "string \<Rightarrow> u32" where
  "perms2prot perms =
     (if char_at perms 0 = CHR ''r'' then PROT_READ else 0)
     OR (if char_at perms 1 = CHR ''w'' then PROT_WRITE else 0)
     OR (if char_at perms 2 = CHR ''x'' then PROT_EXEC else 0)"

text \<open>The C library's \<^verbatim>\<open>basename\<close>: what follows the last slash.\<close>

definition basename :: "string \<Rightarrow> string" where
  "basename p = rev (takeWhile (\<lambda>c. c \<noteq> CHR ''/'') (rev p))"

text \<open>\<^verbatim>\<open>!strncmp(s, lit, n)\<close> with \<open>n\<close> the length of the literal: \<open>s\<close> starts with it.\<close>

definition starts_with :: "string \<Rightarrow> string \<Rightarrow> bool" where
  "starts_with s lit = (take (length lit) s = lit)"

definition get_vma_type :: "string \<Rightarrow> string \<Rightarrow> vma_type" where
  "get_vma_type exe name =
     (if name = exe then VMA_SELF
      else if starts_with (basename name) ''libc'' \<or> starts_with (basename name) ''libssp''
           then VMA_LIBC
      else if starts_with (basename name) ''libelf'' then VMA_LIBELF
      else if name = ''[heap]'' then VMA_HEAP
      else if starts_with (basename name) ''ld-linux'' then VMA_LD
      else if name = ''[stack]'' then VMA_STACK
      else if name = ''[vvar]'' then VMA_VVAR
      else if name = ''[vdso]'' then VMA_VDSO
      else if name = ''[vsyscall]'' then VMA_VSYSCALL
      else if starts_with (basename name) ''lib'' then VMA_LIB_DONT_KNOWN
      else if length name = 0 then VMA_ANON
      else VMA_NONE)"

subsection \<open>The task and read_task_vmas\<close>

text \<open>
  The flag word of \<^verbatim>\<open>open_task\<close>, as the outcome of its five tests \<^verbatim>\<open>flag & FTO_...\<close>
  (the bit values are in \<^verbatim>\<open>task.h\<close>, which is not among the sources).
\<close>

record fto_flags =
  fto_libc :: bool
  fto_self :: bool
  fto_vma_elf :: bool
  fto_vma_elf_symbols :: bool
  fto_proc :: bool

text \<open>
  \<^verbatim>\<open>struct symbol\<close> of a target symbol: its name, \<^verbatim>\<open>sym.st_value\<close> and the VMA it
  belongs to.
\<close>

record symbol =
  sym_name :: string
  sym_st_value :: u64
  sym_vma :: nat

text \<open>
  \<^verbatim>\<open>struct task\<close>. \<open>task_vmas\<close> is the arena of the VMAs allocated for the task, in
  allocation order; it stands for the list \<^verbatim>\<open>task->vmas\<close> and the tree
  \<^verbatim>\<open>task->vmas_rb\<close>, which hold the same VMAs.
\<close>

record task =
  task_pid :: int
  task_comm :: string
  task_exe :: string
  task_proc_mem_fd :: int
  task_fto_flag :: fto_flags
  task_vmas :: "vma_struct list"
  task_libc_vma :: "nat option"
  task_stack :: "nat option"
  task_libc_elf :: "elf_file option"
  task_exe_elf :: "elf_file option"
  task_vma_symbols :: "symbol list"

text \<open>
  One line of \<^verbatim>\<open>/proc/PID/maps\<close> as \<^verbatim>\<open>sscanf\<close> read it: the number of fields it
  converted, and the fields (zero or empty where it converted none).
\<close>

record maps_line =
  ml_fields :: int
  ml_start :: u64
  ml_end :: u64
  ml_perms :: string
  ml_offset :: u64
  ml_maj :: u32
  ml_min :: u32
  ml_inode :: u32
  ml_name :: string

definition alloc_vma :: vma_struct where
  "alloc_vma = mk_vma 0 0"

text \<open>
  Modelled from the spec: \<^verbatim>\<open>list_add\<close> of \<^verbatim>\<open>utils/list.h\<close> is not among the sources.
  The specification says that subsequent VMAs link into the leader's sibling list; the
  new entry is put next to the list head. No theorem below depends on the place.
\<close>

definition list_add :: "nat \<Rightarrow> nat list \<Rightarrow> nat list" where
  "list_add new head = new # head"

text \<open>
  \<^verbatim>\<open>insert_vma\<close>; \<open>vma\<close> and \<open>prev\<close> are indices into the arena. (\<^verbatim>\<open>prev->leader\<close> is
  never null where \<^verbatim>\<open>read_task_vmas\<close> calls it.)
\<close>

definition insert_vma :: "task \<Rightarrow> nat \<Rightarrow> nat option \<Rightarrow> task" where
  "insert_vma task vma prev =
     (let vs = task_vmas task
      in case prev of
           None \<Rightarrow> task
         | Some p \<Rightarrow>
             if vma_name (vs ! p) = vma_name (vs ! vma)
             then (case vma_leader (vs ! p) of
                     None \<Rightarrow> task
                   | Some leader \<Rightarrow>
                       let vs1 = vs[vma := (vs ! vma)\<lparr>vma_leader := Some leader\<rparr>];
                           vs2 = vs1[leader := (vs1 ! leader)
                                   \<lparr>vma_siblings := list_add vma (vma_siblings (vs1 ! leader))\<rparr>]
                       in task\<lparr>task_vmas := vs2\<rparr>)
             else task)"

definition free_task_vmas :: "task \<Rightarrow> task" where
  "free_task_vmas task = task\<lparr>task_vmas := [], task_libc_vma := None, task_stack := None\<rparr>"

text \<open>
  The \<^verbatim>\<open>do ... while (1)\<close> loop of \<^verbatim>\<open>read_task_vmas\<close> over the lines \<^verbatim>\<open>fgets\<close> yields;
  it ends at the end of the file, or returns -1 at a line \<^verbatim>\<open>sscanf\<close> converts nothing of.
\<close>

fun read_maps_lines :: "maps_line list \<Rightarrow> nat option \<Rightarrow> task \<Rightarrow> int \<times> task" where
  "read_maps_lines [] prev task = (0, task)"
| "read_maps_lines (l # ls) prev task =
     (if ml_fields l \<le> 0 then (- 1, task)
      else
        let idx = length (task_vmas task);
            vma = alloc_vma\<lparr>vma_start := ml_start l, vma_end := ml_end l,
                    vma_perms := ml_perms l, vma_prot := perms2prot (ml_perms l),
                    vma_offset := ml_offset l, vma_maj := ml_maj l, vma_min := ml_min l,
                    vma_inode := ml_inode l, vma_name := ml_name l,
                    vma_type := get_vma_type (task_exe task) (ml_name l),
                    vma_leader := Some idx\<rparr>;
            task1 = task\<lparr>task_vmas := task_vmas task @ [vma]\<rparr>;
            task2 = (if task_libc_vma task1 = None \<and> vma_type vma = VMA_LIBC
                        \<and> (vma_prot vma AND PROT_EXEC) \<noteq> 0
                     then task1\<lparr>task_libc_vma := Some idx\<rparr> else task1);
            task3 = (if task_stack task2 = None \<and> vma_type vma = VMA_STACK
                     then task2\<lparr>task_stack := Some idx\<rparr> else task2)
        in read_maps_lines ls (Some idx) (insert_vma task3 idx prev))"

text \<open>
  \<^verbatim>\<open>read_task_vmas\<close>; \<open>maps\<close> is \<open>None\<close> when \<^verbatim>\<open>/proc/PID/maps\<close> cannot be opened.
\<close>

definition read_task_vmas :: "task \<Rightarrow> bool \<Rightarrow> maps_line list option \<Rightarrow> int \<times> task" where
  "read_task_vmas task update maps =
     (let task0 = (if update then free_task_vmas task else task)
      in case maps of
           None \<Rightarrow> (- 1, task0)
         | Some lines \<Rightarrow> read_maps_lines lines None task0)"

text \<open>
  The lines \<^verbatim>\<open>read_task_vmas\<close> turns into VMAs, and, for the \<open>i\<close>-th of a list of
  path names, the start of the run of equal consecutive names that \<open>i\<close> lies in.
\<close>

definition parsed_lines :: "maps_line list \<Rightarrow> maps_line list" where
  "parsed_lines ls = takeWhile (\<lambda>l. 0 < ml_fields l) ls"

fun run_start :: "string list \<Rightarrow> nat \<Rightarrow> nat" where
  "run_start names 0 = 0"
| "run_start names (Suc i) =
     (if names ! i = names ! Suc i then run_start names i else Suc i)"

definition mk_line :: "u64 \<Rightarrow> u64 \<Rightarrow> string \<Rightarrow> u64 \<Rightarrow> string \<Rightarrow> maps_line" where
  "mk_line s e perms off name =
     \<lparr>ml_fields = (if name = [] then 7 else 8), ml_start = s, ml_end = e, ml_perms = perms,
      ml_offset = off, ml_maj = 8, ml_min = 1, ml_inode = (if name = [] then 0 else 1234),
      ml_name = name\<rparr>"

definition task_init :: "int \<Rightarrow> string \<Rightarrow> fto_flags \<Rightarrow> task" where
  "task_init pid exe flag =
     \<lparr>task_pid = pid, task_comm = [], task_exe = exe, task_proc_mem_fd = 0,
      task_fto_flag = flag, task_vmas = [], task_libc_vma = None, task_stack = None,
      task_libc_elf = None, task_exe_elf = None, task_vma_symbols = []\<rparr>"

subsection \<open>Leaders and siblings after read_task_vmas\<close>

definition vmas_linked :: "vma_struct list \<Rightarrow> bool" where
  "vmas_linked vs =
     (\<forall>i < length vs.
        vma_leader (vs ! i) = Some (run_start (map vma_name vs) i) \<and>
        (run_start (map vma_name vs) i = i \<longrightarrow>
           set (vma_siblings (vs ! i))
             = {j. j < length vs \<and> j \<noteq> i \<and> run_start (map vma_name vs) j = i}))"

definition prev_of :: "vma_struct list \<Rightarrow> nat option" where
  "prev_of vs = (if vs = [] then None else Some (length vs - 1))"

text \<open>
  What \<^verbatim>\<open>insert_vma\<close> does to the arena, and the invariant of the loop of
  \<^verbatim>\<open>read_task_vmas\<close>: every VMA's leader is the start of the run of equal consecutive
  path names it lies in, and a leader's ring holds the other VMAs of its run.
\<close>

definition link_vma :: "vma_struct list \<Rightarrow> nat \<Rightarrow> nat option \<Rightarrow> vma_struct list" where
  "link_vma vs vma prev =
     (case prev of
        None \<Rightarrow> vs
      | Some p \<Rightarrow>
          if vma_name (vs ! p) = vma_name (vs ! vma)
          then (case vma_leader (vs ! p) of
                  None \<Rightarrow> vs
                | Some leader \<Rightarrow>
                    (vs[vma := (vs ! vma)\<lparr>vma_leader := Some leader\<rparr>])
                      [leader := ((vs[vma := (vs ! vma)\<lparr>vma_leader := Some leader\<rparr>]) ! leader)
                         \<lparr>vma_siblings := list_add vma
                            (vma_siblings ((vs[vma := (vs ! vma)\<lparr>vma_leader := Some leader\<rparr>]) ! leader))\<rparr>])
          else vs)"

text \<open>Two listings: libc's mappings split by an anonymous mapping, and adjacent.\<close>

definition fto_none :: fto_flags where
  "fto_none = \<lparr>fto_libc = False, fto_self = False, fto_vma_elf = False,
                 fto_vma_elf_symbols = False, fto_proc = False\<rparr>"

definition lines_split :: "maps_line list" where
  "lines_split =
     [mk_line 0x7f0000000000 0x7f0000028000 ''r--p'' 0 ''/usr/lib64/libc.so.6'',
      mk_line 0x7f0000028000 0x7f000002a000 ''rw-p'' 0 [],
      mk_line 0x7f000002a000 0x7f000019d000 ''r-xp'' 0x28000 ''/usr/lib64/libc.so.6'']"

definition lines_adjacent :: "maps_line list" where
  "lines_adjacent =
     [mk_line 0x7f0000000000 0x7f0000028000 ''r--p'' 0 ''/usr/lib64/libc.so.6'',
      mk_line 0x7f0000028000 0x7f000019d000 ''r-xp'' 0x28000 ''/usr/lib64/libc.so.6'',
      mk_line 0x7ffc00000000 0x7ffc00021000 ''rw-p'' 0 ''[stack]'']"

subsection \<open>vma_peek_phdr\<close>

definition ET_DYN :: u16 where "ET_DYN = 3"

definition PT_LOAD :: u32 where "PT_LOAD = 1"

definition PT_INTERP :: u32 where "PT_INTERP = 3"

definition ULONG_MAX :: u64 where "ULONG_MAX = - 1"

text \<open>
  Modelled from the spec: the macro \<^verbatim>\<open>ALIGN_DOWN\<close> is not among the sources; the
  specification writes it \<^verbatim>\<open>x & ~(align - 1)\<close>.
\<close>

definition ALIGN_DOWN :: "u64 \<Rightarrow> u64 \<Rightarrow> u64" where
  "ALIGN_DOWN x a = x AND NOT (a - 1)"

text \<open>
  Modelled from the spec: \<^verbatim>\<open>check_ehdr_magic_is_ok\<close> is not among the sources; the
  specification calls it the header magic check (\<^verbatim>\<open>EI_MAG\<close>: 0x7f, E, L, F).
\<close>

definition check_ehdr_magic_is_ok :: "GElf_Ehdr \<Rightarrow> bool" where
  "check_ehdr_magic_is_ok ehdr = (take 4 (e_ident ehdr) = [0x7f, 0x45, 0x4c, 0x46])"

definition ehdr_zero :: GElf_Ehdr where
  "ehdr_zero = \<lparr>e_ident = replicate 16 0, e_type = 0, e_phoff = 0, e_phnum = 0\<rparr>"

text \<open>\<^verbatim>\<open>!strncmp(name + strlen(name) - 3, ".so", 3)\<close>: the name ends in \<^verbatim>\<open>.so\<close>.\<close>

definition ends_with_so :: "string \<Rightarrow> bool" where
  "ends_with_so name = (drop (length name - 3) name = ''.so'')"

definition elf_vma_is_interp_exception :: "vma_struct \<Rightarrow> bool" where
  "elf_vma_is_interp_exception vma =
     (let name = vma_name vma
      in if starts_with name ''libc'' \<and> ends_with_so name then True
         else if starts_with name ''libssp'' then True
         else if starts_with name ''libpthread'' \<and> ends_with_so name then True
         else if starts_with name ''libdl'' \<and> ends_with_so name then True
         else False)"

text \<open>
  What \<^verbatim>\<open>vma_peek_phdr\<close> reads from the target: for the two calls of
  \<^verbatim>\<open>memcpy_from_task\<close>, by address, the return value and the content of the buffer
  after the call (decoded), and whether \<^verbatim>\<open>malloc\<close> gave a block for the program headers.
\<close>

record peek_env =
  pk_ehdr :: "u64 \<Rightarrow> int \<times> GElf_Ehdr"
  pk_phdrs_alloc :: bool
  pk_phdrs :: "u64 \<Rightarrow> nat \<Rightarrow> int \<times> GElf_Phdr list"

text \<open>
  The VMAs \<^verbatim>\<open>list_for_each_entry_safe(sibling, tmpvma, &vma->siblings, siblings)\<close> visits
  from the VMA \<open>idx\<close>: the others of its ring, in ring order. For a leader these are its
  \<open>vma_siblings\<close>.
\<close>

definition siblings_walk :: "vma_struct list \<Rightarrow> nat \<Rightarrow> nat list" where
  "siblings_walk vs idx =
     (case vma_leader (vs ! idx) of
        None \<Rightarrow> []
      | Some l \<Rightarrow>
          let ring = l # vma_siblings (vs ! l)
          in tl (dropWhile (\<lambda>j. j \<noteq> idx) ring) @ takeWhile (\<lambda>j. j \<noteq> idx) ring)"

text \<open>The inner loop: every visited sibling at file offset \<open>off\<close> gets the \<open>voffset\<close>.\<close>

primrec set_voffsets :: "nat list \<Rightarrow> u64 \<Rightarrow> u64 \<Rightarrow> vma_struct list \<Rightarrow> vma_struct list" where
  "set_voffsets [] off vaddr vs = vs"
| "set_voffsets (sibling # rest) off vaddr vs =
     set_voffsets rest off vaddr
       (if vma_offset (vs ! sibling) = off
        then vs[sibling := (vs ! sibling)\<lparr>vma_voffset := vaddr\<rparr>] else vs)"

text \<open>
  The loop over the program headers: the lowest \<^verbatim>\<open>p_vaddr\<close> of a \<^verbatim>\<open>PT_LOAD\<close> so far, and
  the arena.
\<close>

primrec peek_loop ::
  "GElf_Phdr list \<Rightarrow> nat list \<Rightarrow> u64 \<Rightarrow> vma_struct list \<Rightarrow> u64 \<times> vma_struct list" where
  "peek_loop [] walk lowest_vaddr vs = (lowest_vaddr, vs)"
| "peek_loop (phdr # rest) walk lowest_vaddr vs =
     (if p_type phdr = PT_LOAD
      then peek_loop rest walk
             (if lowest_vaddr \<le> p_vaddr phdr then lowest_vaddr else p_vaddr phdr)
             (set_voffsets walk (ALIGN_DOWN (p_vaddr phdr) (p_align phdr)) (p_vaddr phdr) vs)
      else peek_loop rest walk lowest_vaddr vs)"

definition upd_vma :: "task \<Rightarrow> nat \<Rightarrow> (vma_struct \<Rightarrow> vma_struct) \<Rightarrow> task" where
  "upd_vma task idx f = task\<lparr>task_vmas := (task_vmas task)[idx := f (task_vmas task ! idx)]\<rparr>"

text \<open>
  \<^verbatim>\<open>vma_peek_phdr\<close> on the VMA \<open>idx\<close>. The two comparisons of the \<^verbatim>\<open>int\<close> that
  \<^verbatim>\<open>memcpy_from_task\<close> returns are unsigned (against a \<^verbatim>\<open>size_t\<close>, and against the
  \<^verbatim>\<open>unsigned int phsz\<close>); \<^verbatim>\<open>sizeof(GElf_Ehdr)\<close> is 64 and \<^verbatim>\<open>sizeof(GElf_Phdr)\<close> 56.
\<close>

definition vma_peek_phdr :: "peek_env \<Rightarrow> task \<Rightarrow> nat \<Rightarrow> int \<times> task" where
  "vma_peek_phdr env task idx =
     (let vma = task_vmas task ! idx
      in if vma_type vma = VMA_VVAR \<or> vma_type vma = VMA_STACK \<or> vma_type vma = VMA_VSYSCALL
         then (0, task)
         else if vma_elf vma \<noteq> Null \<or> vma_is_elf vma then (0, task)
         else
           let (r1, buf) = pk_ehdr env (vma_start vma);
               ehdr = (if r1 \<le> 0 then ehdr_zero else buf)
           in if (word_of_int r1 :: u64) < 64 then (- 1, task)
              else if \<not> check_ehdr_magic_is_ok ehdr then (0, task)
              else
                let phaddr = vma_start vma + e_phoff ehdr;
                    phsz = (ucast (e_phnum ehdr) * 56 :: u32)
                in if phsz = 0 then (0, upd_vma task idx (\<lambda>v. v\<lparr>vma_elf := Dangling\<rparr>))
                   else if \<not> pk_phdrs_alloc env
                        then (- 1, upd_vma task idx (\<lambda>v. v\<lparr>vma_elf := Dangling\<rparr>))
                   else
                     let (r2, phdrs) = pk_phdrs env phaddr (unat (e_phnum ehdr))
                     in if (word_of_int r2 :: u32) < phsz
                        then (- 1, upd_vma task idx (\<lambda>v. v\<lparr>vma_elf := Dangling\<rparr>))
                        else
                          let heads = take (unat (e_phnum ehdr)) phdrs;
                              is_share_lib =
                                (if e_type ehdr \<noteq> ET_DYN then False
                                 else if (\<exists>h \<in> set heads. p_type h = PT_INTERP)
                                         \<and> \<not> elf_vma_is_interp_exception vma
                                      then False else True)
                                \<or> vma_type vma = VMA_LIBC \<or> vma_type vma = VMA_LIB_DONT_KNOWN;
                              (lowest_vaddr, vs) =
                                peek_loop heads (siblings_walk (task_vmas task) idx) ULONG_MAX
                                  (task_vmas task);
                              task1 = task\<lparr>task_vmas := vs\<rparr>
                          in if lowest_vaddr = ULONG_MAX
                             then (- 1, upd_vma task1 idx
                                          (\<lambda>v. v\<lparr>vma_elf := Null, vma_is_elf := False,
                                                  vma_is_share_lib := False\<rparr>))
                             else (0, upd_vma task1 idx
                                        (\<lambda>v. v\<lparr>vma_is_elf := True,
                                                vma_is_share_lib := is_share_lib,
                                                vma_elf := Ptr \<lparr>elf_ehdr = ehdr, elf_phdrs = phdrs,
                                                  elf_load_offset = vma_start vma - lowest_vaddr\<rparr>\<rparr>)))"





subsection \<open>task_vma_symbol_value\<close>

text \<open>
  The loop of \<^verbatim>\<open>task_vma_symbol_value\<close> over the leader's siblings: the VMA \<^verbatim>\<open>vma\<close>
  refers to when the loop is left. At a \<^verbatim>\<open>break\<close> it is the sibling just tested; when
  the list runs out it is the entry that holds the list head, the leader itself.
\<close>

primrec symbol_vma :: "vma_struct list \<Rightarrow> u64 \<Rightarrow> nat list \<Rightarrow> nat \<Rightarrow> nat" where
  "symbol_vma vs off [] leader = leader"
| "symbol_vma vs off (vma # rest) leader =
     (if off < vma_offset (vs ! vma) then vma else symbol_vma vs off rest leader)"

definition task_vma_symbol_value :: "vma_struct list \<Rightarrow> symbol \<Rightarrow> u64" where
  "task_vma_symbol_value vs s =
     (let leader = sym_vma s
      in if vma_leader (vs ! leader) \<noteq> Some leader then 0
         else if vma_is_share_lib (vs ! leader)
              then let off = sym_st_value s;
                       vma = symbol_vma vs off (vma_siblings (vs ! leader)) leader
                   in vma_start (vs ! vma) + (off - vma_offset (vs ! vma))
              else sym_st_value s)"

text \<open>
  The specification's words: among the segments of the file, in file order, the one
  whose \<open>voffset\<close> is at most \<open>st_value\<close> while the next one's is above it; the address
  is that segment's start plus \<open>st_value\<close> minus its \<open>voffset\<close>.
\<close>

fun spec_resolve :: "vma_struct list \<Rightarrow> u64 \<Rightarrow> u64 option" where
  "spec_resolve [] st_value = None"
| "spec_resolve [s] st_value =
     (if vma_voffset s \<le> st_value then Some (vma_start s + (st_value - vma_voffset s))
      else None)"
| "spec_resolve (s # n # rest) st_value =
     (if vma_voffset s \<le> st_value \<and> st_value < vma_voffset n
      then Some (vma_start s + (st_value - vma_voffset s))
      else spec_resolve (n # rest) st_value)"

subsection \<open>open_task\<close>











subsection \<open>Concrete environments for open_task\<close>







subsection \<open>A peek at libc\<close>

text \<open>
  The start of a libc image as \<^verbatim>\<open>vma_peek_phdr\<close> reads it: a valid header of type
  \<^verbatim>\<open>ET_DYN\<close> with two \<^verbatim>\<open>PT_LOAD\<close> program headers, at \<^verbatim>\<open>p_vaddr\<close> 0 and 0x28000,
  aligned to 0x1000; and the task whose maps listing is \<open>lines_adjacent\<close>.
\<close>

definition phdr_load :: "u64 \<Rightarrow> u64 \<Rightarrow> GElf_Phdr" where
  "phdr_load vaddr align =
     \<lparr>p_type = PT_LOAD, p_flags = 5, p_offset = vaddr, p_vaddr = vaddr, p_paddr = vaddr,
      p_filesz = 0x1000, p_memsz = 0x1000, p_align = align\<rparr>"

definition peek_libc :: peek_env where
  "peek_libc =
     \<lparr>pk_ehdr = (\<lambda>a. (64, \<lparr>e_ident = [0x7f, 0x45, 0x4c, 0x46] @ replicate 12 0,
                              e_type = ET_DYN, e_phoff = 64, e_phnum = 2\<rparr>)),
      pk_phdrs_alloc = True,
      pk_phdrs = (\<lambda>a n. (112, [phdr_load 0 0x1000, phdr_load 0x28000 0x1000]))\<rparr>"

definition task_libc :: task where
  "task_libc = snd (read_task_vmas (task_init 1234 ''/usr/bin/hello'' fto_none) False
                      (Some lines_adjacent))"


subsection \<open>A library whose data segment is not mapped at its file offset\<close>

text \<open>
  A shared library of two \<^verbatim>\<open>PT_LOAD\<close> segments, the usual layout of a small library:
  the text at file offset 0 and \<^verbatim>\<open>p_vaddr\<close> 0, the data at file offset 0x1e10 and
  \<^verbatim>\<open>p_vaddr\<close> 0x2e10. The loader maps the text at the base 0x7f0000000000 and the data
  one page above its file offset: the second maps line is at 0x7f0000002000 with file
  offset 0x1000. \<open>task_libfoo\<close> is the task after \<^verbatim>\<open>read_task_vmas\<close> and the peek of the
  first VMA; \<open>task_libc_peeked\<close> is the libc task above after its peek.
\<close>

definition lines_libfoo :: "maps_line list" where
  "lines_libfoo =
     [mk_line 0x7f0000000000 0x7f0000001000 ''r-xp'' 0 ''/usr/lib64/libfoo.so'',
      mk_line 0x7f0000002000 0x7f0000003000 ''rw-p'' 0x1000 ''/usr/lib64/libfoo.so'']"

definition peek_libfoo :: peek_env where
  "peek_libfoo =
     \<lparr>pk_ehdr = (\<lambda>a. (64, \<lparr>e_ident = [0x7f, 0x45, 0x4c, 0x46] @ replicate 12 0,
                              e_type = ET_DYN, e_phoff = 64, e_phnum = 2\<rparr>)),
      pk_phdrs_alloc = True,
      pk_phdrs = (\<lambda>a n. (112, [phdr_load 0 0x1000,
                                 (phdr_load 0x2e10 0x1000)\<lparr>p_offset := 0x1e10\<rparr>]))\<rparr>"

definition task_libfoo :: task where
  "task_libfoo =
     snd (vma_peek_phdr peek_libfoo
            (snd (read_task_vmas (task_init 1234 ''/usr/bin/hello'' fto_none) False
                    (Some lines_libfoo))) 0)"

definition task_libc_peeked :: task where
  "task_libc_peeked = snd (vma_peek_phdr peek_libc task_libc 0)"

definition sym_foo :: symbol where
  "sym_foo = \<lparr>sym_name = ''foo'', sym_st_value = 0x600, sym_vma = 0\<rparr>"

definition sym_printf :: symbol where
  "sym_printf = \<lparr>sym_name = ''printf'', sym_st_value = 0x6f3d0, sym_vma = 0\<rparr>"

section \<open>The command line of ultask (src/ultask.c)\<close>

text \<open>Linux error numbers, as \<^verbatim>\<open>errno.h\<close> has them.\<close>

definition ENOENT :: int where "ENOENT = 2"

definition EEXIST :: int where "EEXIST = 17"

definition EINVAL :: int where "EINVAL = 22"

definition PATH_MAX :: nat where "PATH_MAX = 4096"

text \<open>
  The file-scope variables of \<^verbatim>\<open>ultask.c\<close> that \<^verbatim>\<open>parse_config\<close> reads after its option
  loop, with \<^verbatim>\<open>force\<close> of the common options. A \<^verbatim>\<open>char *\<close> that may be null is an
  option.
\<close>

record config =
  target_pid :: int
  flag_print_task :: bool
  flag_print_vmas :: bool
  flag_dump_vma :: bool
  flag_dump_addr :: bool
  flag_unmap_vma :: bool
  map_file :: "string option"
  jmp_addr_from :: u64
  jmp_addr_to :: u64
  flag_list_symbols :: bool
  flag_print_threads :: bool
  flag_print_fds :: bool
  flag_print_auxv :: bool
  flag_print_status :: bool
  flag_disasm :: bool
  output_file :: "string option"
  force :: bool

text \<open>
  The variables as their initialisers leave them (\<^verbatim>\<open>target_pid = -1\<close>,
  \<^verbatim>\<open>flag_print_task = true\<close>, everything else false, zero or null).
\<close>

definition config_init :: config where
  "config_init =
     \<lparr>target_pid = - 1, flag_print_task = True, flag_print_vmas = False,
      flag_dump_vma = False, flag_dump_addr = False, flag_unmap_vma = False,
      map_file = None, jmp_addr_from = 0, jmp_addr_to = 0, flag_list_symbols = False,
      flag_print_threads = False, flag_print_fds = False, flag_print_auxv = False,
      flag_print_status = False, flag_disasm = False, output_file = None, force = False\<rparr>"

text \<open>
  What the helpers answer about the system: whether the process exists, the working
  directory of the target, and for a path whether it exists, whether it is a regular
  file, and its size.
\<close>

record fs_env =
  proc_pid_exist :: "int \<Rightarrow> bool"
  get_proc_pid_cwd :: "int \<Rightarrow> string"
  fexist :: "string \<Rightarrow> bool"
  fregular :: "string \<Rightarrow> bool"
  fsize :: "string \<Rightarrow> int"

text \<open>
  Modelled from the spec: \<^verbatim>\<open>cmd_exit\<close> is not among the sources; by the specification's
  list of exit codes it ends the process with the code given. \<open>Inl code\<close> is that exit,
  \<open>Inr cfg\<close> the return of 0 with the variables as \<open>cfg\<close>.

  \<^verbatim>\<open>parse_config\<close> from the end of its option loop, on the variables the loop leaves
  (\<^verbatim>\<open>map_file\<close> is the value of the \<^verbatim>\<open>file=\<close> suboption of \<^verbatim>\<open>--map\<close>, \<^verbatim>\<open>target_pid\<close> that of
  \<^verbatim>\<open>--pid\<close>, \<^verbatim>\<open>output_file\<close> that of \<^verbatim>\<open>-o\<close>).
\<close>

definition nothing_to_do :: "config \<Rightarrow> bool" where
  "nothing_to_do cfg =
     (\<not> flag_print_vmas cfg \<and> \<not> flag_dump_vma cfg \<and> \<not> flag_dump_addr cfg
      \<and> map_file cfg = None \<and> (jmp_addr_from cfg = 0 \<or> jmp_addr_to cfg = 0)
      \<and> \<not> flag_unmap_vma cfg \<and> \<not> flag_list_symbols cfg \<and> \<not> flag_print_auxv cfg
      \<and> \<not> flag_print_status cfg \<and> \<not> flag_print_threads cfg \<and> \<not> flag_disasm cfg
      \<and> \<not> flag_print_fds cfg)"

definition check_output_file :: "fs_env \<Rightarrow> config \<Rightarrow> int + config" where
  "check_output_file env cfg =
     (case output_file cfg of
        None \<Rightarrow> Inr cfg
      | Some out \<Rightarrow> if \<not> force cfg \<and> fexist env out then Inl 1 else Inr cfg)"

definition check_map_file :: "fs_env \<Rightarrow> config \<Rightarrow> int + config" where
  "check_map_file env cfg =
     (case map_file cfg of
        None \<Rightarrow> check_output_file env cfg
      | Some file \<Rightarrow>
          let absolute = (take 1 file = ''/'');
              cwd_file = take (PATH_MAX - 1)
                           (get_proc_pid_cwd env (target_pid cfg) @ ''/'' @ file);
              real_map_file = (if absolute then file else cwd_file)
          in if \<not> fexist env real_map_file then Inl EEXIST
             else if \<not> fregular env real_map_file then Inl ENOENT
             else if fsize env real_map_file = 0 then Inl EINVAL
             else check_output_file env (cfg\<lparr>map_file := Some real_map_file\<rparr>))"

definition parse_config :: "fs_env \<Rightarrow> config \<Rightarrow> int + config" where
  "parse_config env cfg =
     (if target_pid cfg = - 1 then Inl 1
      else if \<not> proc_pid_exist env (target_pid cfg) then Inl 1
      else
        let cfg1 = (if nothing_to_do cfg then cfg else cfg\<lparr>flag_print_task := False\<rparr>)
        in if flag_dump_vma cfg1 \<and> output_file cfg1 = None then Inl 1
           else if flag_dump_addr cfg1 \<and> output_file cfg1 = None then Inl 1
           else check_map_file env cfg1)"

text \<open>
  Three states of the file system around \<^verbatim>\<open>/tmp/patch.o\<close> (absent; a directory; an empty
  regular file), the process 1234 running, and two command lines:
  \<^verbatim>\<open>ultask --pid 1234 --map file=/tmp/patch.o\<close> and \<^verbatim>\<open>ultask --map file=/tmp/patch.o\<close>.
\<close>

definition fs_absent :: fs_env where
  "fs_absent = \<lparr>proc_pid_exist = (\<lambda>pid. pid = 1234), get_proc_pid_cwd = (\<lambda>pid. ''/root''),
                 fexist = (\<lambda>p. False), fregular = (\<lambda>p. False), fsize = (\<lambda>p. - 1)\<rparr>"

definition fs_directory :: fs_env where
  "fs_directory = fs_absent\<lparr>fexist := (\<lambda>p. p = ''/tmp/patch.o'')\<rparr>"

definition fs_empty :: fs_env where
  "fs_empty = fs_directory\<lparr>fregular := (\<lambda>p. p = ''/tmp/patch.o''),
                            fsize := (\<lambda>p. if p = ''/tmp/patch.o'' then 0 else - 1)\<rparr>"

definition cfg_map :: config where
  "cfg_map = config_init\<lparr>target_pid := 1234, map_file := Some ''/tmp/patch.o''\<rparr>"

definition cfg_map_no_pid :: config where
  "cfg_map_no_pid = config_init\<lparr>map_file := Some ''/tmp/patch.o''\<rparr>"

section \<open>Theorems\<close>

subsection \<open>find_vma_span_area\<close>

lemma span_word_gap:
  fixes a b sz :: u64
  assumes "a \<le> b"
  shows "sz \<le> b - a \<longleftrightarrow> unat a + unat sz \<le> unat b"
proof -
  have le: "unat a \<le> unat b"
    using assms by (simp add: word_le_nat_alt)
  have "unat (b - a) = unat b - unat a"
    using assms by (rule unat_sub)
  then show ?thesis
    using le by (simp add: word_le_nat_alt) arith
qed

lemma vmas_ascending_tail:
  "vmas_ascending (v # vs) \<Longrightarrow> vmas_ascending vs"
  unfolding vmas_ascending_def by (metis Suc_less_eq length_Cons nth_Cons_Suc)

lemma vmas_ascending_head:
  "vmas_ascending (v # n # vs) \<Longrightarrow> vma_end v \<le> vma_start n"
  unfolding vmas_ascending_def by force

lemma find_vma_span_area_first:
  assumes "vmas_ascending vs" "span_gap vs sz i" "\<forall>j<i. \<not> span_gap vs sz j"
  shows "find_vma_span_area vs sz = vma_end (vs ! i)"
  using assms
proof (induction vs sz arbitrary: i rule: find_vma_span_area.induct)
  case (1 sz)
  then show ?case by (simp add: span_gap_def)
next
  case (2 ivma sz)
  then show ?case by (simp add: span_gap_def)
next
  case (3 ivma next_vma rest sz)
  have le: "vma_end ivma \<le> vma_start next_vma"
    using "3.prems"(1) by (rule vmas_ascending_head)
  show ?case
  proof (cases i)
    case 0
    then have "unat (vma_end ivma) + unat sz \<le> unat (vma_start next_vma)"
      using "3.prems"(2) by (simp add: span_gap_def)
    then have "sz \<le> vma_start next_vma - vma_end ivma"
      using span_word_gap [OF le] by simp
    then show ?thesis using 0 by simp
  next
    case (Suc k)
    then have "\<not> span_gap (ivma # next_vma # rest) sz 0"
      using "3.prems"(3) by simp
    then have "\<not> unat (vma_end ivma) + unat sz \<le> unat (vma_start next_vma)"
      by (simp add: span_gap_def)
    then have no: "\<not> sz \<le> vma_start next_vma - vma_end ivma"
      using span_word_gap [OF le] by simp
    have asc: "vmas_ascending (next_vma # rest)"
      using "3.prems"(1) by (rule vmas_ascending_tail)
    have gap: "span_gap (next_vma # rest) sz k"
      using "3.prems"(2) Suc by (simp add: span_gap_def)
    have first: "\<forall>j<k. \<not> span_gap (next_vma # rest) sz j"
    proof (intro allI impI)
      fix j assume "j < k"
      then have "\<not> span_gap (ivma # next_vma # rest) sz (Suc j)"
        using "3.prems"(3) Suc by simp
      then show "\<not> span_gap (next_vma # rest) sz j"
        by (simp add: span_gap_def)
    qed
    have "find_vma_span_area (next_vma # rest) sz = vma_end ((next_vma # rest) ! k)"
      using "3.IH" [OF no asc gap first] .
    then show ?thesis using no Suc by simp
  qed
qed

lemma find_vma_span_area_none:
  assumes "vmas_ascending vs" "\<forall>i. \<not> span_gap vs sz i"
  shows "find_vma_span_area vs sz = 0"
  using assms
proof (induction vs sz rule: find_vma_span_area.induct)
  case (1 sz)
  then show ?case by simp
next
  case (2 ivma sz)
  then show ?case by simp
next
  case (3 ivma next_vma rest sz)
  have le: "vma_end ivma \<le> vma_start next_vma"
    using "3.prems"(1) by (rule vmas_ascending_head)
  have "\<not> span_gap (ivma # next_vma # rest) sz 0"
    using "3.prems"(2) by blast
  then have "\<not> unat (vma_end ivma) + unat sz \<le> unat (vma_start next_vma)"
    by (simp add: span_gap_def)
  then have no: "\<not> sz \<le> vma_start next_vma - vma_end ivma"
    using span_word_gap [OF le] by simp
  have asc: "vmas_ascending (next_vma # rest)"
    using "3.prems"(1) by (rule vmas_ascending_tail)
  have none: "\<forall>i. \<not> span_gap (next_vma # rest) sz i"
  proof
    fix i
    have "\<not> span_gap (ivma # next_vma # rest) sz (Suc i)"
      using "3.prems"(2) by blast
    then show "\<not> span_gap (next_vma # rest) sz i"
      by (simp add: span_gap_def)
  qed
  show ?case
    using "3.IH" [OF no asc none] no by simp
qed

text \<open>
  Claim C4. On the in-order walk of a non-overlapping VMA tree, \<open>find_vma_span_area\<close>
  returns the end address of the first VMA whose successor starts at least \<open>sz\<close> bytes
  after that end, and 0 when no VMA is followed by such a gap. For the VMAs
  \<open>[0x400000, 0x401000)\<close> and \<open>[0x500000, 0x501000)\<close> it returns \<open>0x401000\<close> for
  size \<open>0x80000\<close> and \<open>0\<close> for size \<open>0x200000\<close>.
\<close>

theorem find_vma_span_area_first_gap:
  assumes "vmas_ascending vs"
  shows "(\<forall>i. span_gap vs sz i \<and> (\<forall>j<i. \<not> span_gap vs sz j) \<longrightarrow>
            find_vma_span_area vs sz = vma_end (vs ! i))
       \<and> ((\<forall>i. \<not> span_gap vs sz i) \<longrightarrow> find_vma_span_area vs sz = 0)
       \<and> find_vma_span_area [mk_vma 0x400000 0x401000, mk_vma 0x500000 0x501000] 0x80000
            = 0x401000
       \<and> find_vma_span_area [mk_vma 0x400000 0x401000, mk_vma 0x500000 0x501000] 0x200000
            = 0"
proof (intro conjI allI impI)
  fix i
  assume "span_gap vs sz i \<and> (\<forall>j<i. \<not> span_gap vs sz j)"
  then show "find_vma_span_area vs sz = vma_end (vs ! i)"
    using assms find_vma_span_area_first by blast
next
  assume "\<forall>i. \<not> span_gap vs sz i"
  then show "find_vma_span_area vs sz = 0"
    using assms by (rule find_vma_span_area_none [rotated])
next
  show "find_vma_span_area [mk_vma 0x400000 0x401000, mk_vma 0x500000 0x501000] 0x80000
          = 0x401000"
    by (simp add: mk_vma_def)
next
  show "find_vma_span_area [mk_vma 0x400000 0x401000, mk_vma 0x500000 0x501000] 0x200000
          = 0"
    by (simp add: mk_vma_def)
qed

theorem find_vma_span_area_first_gap_witness:
  "vmas_ascending [mk_vma 0x400000 0x401000, mk_vma 0x500000 0x501000]
   \<and> span_gap [mk_vma 0x400000 0x401000, mk_vma 0x500000 0x501000] 0x80000 0
   \<and> find_vma_span_area [mk_vma 0x400000 0x401000, mk_vma 0x500000 0x501000] 0x80000
        = vma_end ([mk_vma 0x400000 0x401000, mk_vma 0x500000 0x501000] ! 0)"
proof -
  let ?vs = "[mk_vma 0x400000 0x401000, mk_vma 0x500000 0x501000]"
  have asc: "vmas_ascending ?vs"
    by (simp add: vmas_ascending_def mk_vma_def)
  have gap: "span_gap ?vs 0x80000 0"
    by (simp add: span_gap_def mk_vma_def)
  have "find_vma_span_area ?vs 0x80000 = vma_end (?vs ! 0)"
    using find_vma_span_area_first_gap [OF asc, of "0x80000"] gap by blast
  then show ?thesis
    using asc gap by blast
qed

subsection \<open>Remote memory and task_syscall\<close>

lemma length_read_bytes [simp]: "length (read_bytes m a n) = n"
  by (simp add: read_bytes_def)

lemma read_write_bytes:
  "length bs = n \<Longrightarrow> n \<le> 2 ^ 64 \<Longrightarrow> read_bytes (write_bytes m a bs) a n = bs"
  apply (rule nth_equalityI)
   apply (simp add: read_bytes_def)
  apply (simp add: read_bytes_def write_bytes_def unat_of_nat)
  done

lemma memcpy_to_task_regs [simp]:
  "t_regs (snd (memcpy_to_task t io a bs n)) = t_regs t"
  by (simp add: memcpy_to_task_def Let_def)

lemma memcpy_to_task_full:
  assumes "transfers io n" "n \<le> length bs" "n \<le> 2 ^ 64"
  shows "read_bytes (t_mem (snd (memcpy_to_task t io a bs n))) a n = take n bs"
proof (cases "n = 0")
  case True
  then show ?thesis by (simp add: read_bytes_def)
next
  case False
  then have pos: "\<not> pio_ret io \<le> 0" and k: "min (nat (pio_ret io)) n = n"
    using assms(1) by (auto simp: transfers_def)
  show ?thesis
    using pos k assms(2,3)
    by (simp add: memcpy_to_task_def Let_def read_write_bytes)
qed

lemma memcpy_from_task_full:
  assumes "transfers io n"
  shows "take n (snd (memcpy_from_task t io dst a n)) = read_bytes (t_mem t) a n"
proof (cases "n = 0")
  case True
  then show ?thesis by (simp add: read_bytes_def)
next
  case False
  then have pos: "\<not> pio_ret io \<le> 0" and k: "min (nat (pio_ret io)) n = n"
    using assms(1) by (auto simp: transfers_def)
  show ?thesis
    using pos k by (simp add: memcpy_from_task_def Let_def)
qed

lemma orig_code_saved:
  assumes "transfers (e_peek_orig env) (length SYSCALL_INSTR)"
  shows "take (length SYSCALL_INSTR)
           (snd (memcpy_from_task t (e_peek_orig env) (e_orig_code env) libc_base
                   (length SYSCALL_INSTR)))
         = read_bytes (t_mem t) libc_base (length SYSCALL_INSTR)"
    and "length SYSCALL_INSTR \<le> length (snd (memcpy_from_task t (e_peek_orig env)
           (e_orig_code env) libc_base (length SYSCALL_INSTR)))"
proof -
  show saved: "take (length SYSCALL_INSTR)
           (snd (memcpy_from_task t (e_peek_orig env) (e_orig_code env) libc_base
                   (length SYSCALL_INSTR)))
         = read_bytes (t_mem t) libc_base (length SYSCALL_INSTR)"
    using assms by (rule memcpy_from_task_full)
  have "length (take (length SYSCALL_INSTR)
           (snd (memcpy_from_task t (e_peek_orig env) (e_orig_code env) libc_base
                   (length SYSCALL_INSTR)))) = length SYSCALL_INSTR"
    by (simp only: saved length_read_bytes)
  then show "length SYSCALL_INSTR \<le> length (snd (memcpy_from_task t (e_peek_orig env)
           (e_orig_code env) libc_base (length SYSCALL_INSTR)))"
    by simp
qed

lemma poke_back_eq:
  "poke_back env libc_base orig_code ret res t2 = Some (ret', res', t') \<Longrightarrow>
     ret' = ret \<and> res' = res \<and> t_regs t' = t_regs t2"
  by (auto simp: poke_back_def)

lemma poke_back_bytes:
  assumes "poke_back env libc_base orig_code ret res t2 = Some (ret', res', t')"
      and "transfers (e_poke_back env) (length SYSCALL_INSTR)"
      and "length SYSCALL_INSTR \<le> length orig_code"
  shows "read_bytes (t_mem t') libc_base (length SYSCALL_INSTR)
           = take (length SYSCALL_INSTR) orig_code"
  using assms
    memcpy_to_task_full [of "e_poke_back env" "length SYSCALL_INSTR" orig_code t2 libc_base]
  by (auto simp: poke_back_def SYSCALL_INSTR_def)

lemma wait_for_stop_ret:
  "wait_for_stop es t = Some (w, t') \<Longrightarrow> w = 0 \<or> w = - 1"
  by (induction es t rule: wait_for_stop.induct) (auto split: if_splits)

lemma task_syscall_bytes:
  assumes run: "task_syscall env libc_base t nr a1 a2 a3 a4 a5 a6 res = Some (ret, res', t')"
      and peek: "transfers (e_peek_orig env) (length SYSCALL_INSTR)"
      and poke: "transfers (e_poke_back env) (length SYSCALL_INSTR)"
  shows "read_bytes (t_mem t') libc_base (length SYSCALL_INSTR)
           = read_bytes (t_mem t) libc_base (length SYSCALL_INSTR)"
proof (cases "e_getregs_old env")
  case (PtraceErr e)
  then show ?thesis using run by (simp add: task_syscall_def)
next
  case PtraceOk
  define orig_code where
    "orig_code = snd (memcpy_from_task t (e_peek_orig env) (e_orig_code env)
                        libc_base (length SYSCALL_INSTR))"
  have saved: "take (length SYSCALL_INSTR) orig_code
                 = read_bytes (t_mem t) libc_base (length SYSCALL_INSTR)"
    and len: "length SYSCALL_INSTR \<le> length orig_code"
    unfolding orig_code_def using orig_code_saved [OF peek] by blast+
  obtain r q t2 where "poke_back env libc_base orig_code r q t2 = Some (ret, res', t')"
    using run PtraceOk unfolding task_syscall_def Let_def orig_code_def [symmetric]
    by (auto split: ptrace_ret.splits option.splits if_splits)
  then show ?thesis
    using poke_back_bytes [OF _ poke len] saved by simp
qed

lemma task_syscall_success:
  assumes run: "task_syscall env libc_base t nr a1 a2 a3 a4 a5 a6 res = Some (ret, res', t')"
      and pos: "errnos_positive env"
      and ret: "0 \<le> ret"
  shows "t_regs t' = t_regs t"
    and "\<exists>t2. wait_for_stop (e_wait env) (syscall_entry env libc_base t nr a1 a2 a3 a4 a5 a6)
                 = Some (0, t2) \<and> res' = t_regs t2 SYSCALL_RET"
  using run pos ret
  unfolding task_syscall_def Let_def syscall_entry_def errnos_positive_def errno_ok_def
   apply (auto split: ptrace_ret.splits option.splits if_splits dest!: poke_back_eq)
  apply (frule wait_for_stop_ret)
  apply simp
  done

lemma task_syscall_failure:
  assumes run: "task_syscall env libc_base t nr a1 a2 a3 a4 a5 a6 res = Some (ret, res', t')"
      and ret: "ret < 0"
  shows "res' = res"
  using run ret
  unfolding task_syscall_def Let_def
  by (auto split: ptrace_ret.splits option.splits if_splits dest!: poke_back_eq)

lemma task_syscall_early_failure:
  assumes run: "task_syscall env libc_base t nr a1 a2 a3 a4 a5 a6 res = Some (ret, res', t')"
      and early: "e_getregs_old env \<noteq> PtraceOk \<or> e_setregs_new env \<noteq> PtraceOk"
  shows "t_regs t' = t_regs t"
  using run early
  unfolding task_syscall_def Let_def
  by (auto split: ptrace_ret.splits option.splits if_splits dest!: poke_back_eq)

lemmas remote_eval =
  task_syscall_def poke_back_def Let_def copy_regs_def SYSCALL_IP_def SYSCALL_RET_def
  SYSCALL_REGS_PREPARE_def SIGTRAP_def SIGSTOP_def SIGSEGV_def syscall_returns_def
  env_returning_def env_cont_fails_def target_idle_def task_mmap_def task_malloc_def
  task_munmap_def task_free_def MAP_FAILED_def

text \<open>
  Claim C1, as amended. For every call of \<open>task_syscall\<close> that returns, provided the
  save of the scratch bytes and their final restore transfer completely, the bytes at
  libc-base after the call equal their pre-call values. The register set after the call
  equals the pre-call register set when the call returns success, and when the call
  fails at the first \<^verbatim>\<open>GETREGS\<close> or at the \<^verbatim>\<open>SETREGS\<close> that would install the syscall
  registers; on success \<^verbatim>\<open>*res\<close> holds the return register the target stopped with, and
  on an error return \<^verbatim>\<open>*res\<close> is left as it was.
\<close>

theorem task_syscall_frame:
  assumes run: "task_syscall env libc_base t nr a1 a2 a3 a4 a5 a6 res = Some (ret, res', t')"
      and peek: "transfers (e_peek_orig env) (length SYSCALL_INSTR)"
      and poke: "transfers (e_poke_back env) (length SYSCALL_INSTR)"
      and pos: "errnos_positive env"
  shows "read_bytes (t_mem t') libc_base (length SYSCALL_INSTR)
           = read_bytes (t_mem t) libc_base (length SYSCALL_INSTR)
       \<and> (0 \<le> ret \<longrightarrow>
            t_regs t' = t_regs t \<and>
            (\<exists>t2. wait_for_stop (e_wait env)
                     (syscall_entry env libc_base t nr a1 a2 a3 a4 a5 a6) = Some (0, t2)
                   \<and> res' = t_regs t2 SYSCALL_RET))
       \<and> (e_getregs_old env \<noteq> PtraceOk \<or> e_setregs_new env \<noteq> PtraceOk \<longrightarrow>
            t_regs t' = t_regs t)
       \<and> (ret < 0 \<longrightarrow> res' = res)"
proof (intro conjI impI)
  show "read_bytes (t_mem t') libc_base (length SYSCALL_INSTR)
          = read_bytes (t_mem t) libc_base (length SYSCALL_INSTR)"
    using run peek poke by (rule task_syscall_bytes)
next
  assume "0 \<le> ret"
  then show "t_regs t' = t_regs t"
    using task_syscall_success(1) [OF run pos] by simp
next
  assume "0 \<le> ret"
  then show "\<exists>t2. wait_for_stop (e_wait env)
                     (syscall_entry env libc_base t nr a1 a2 a3 a4 a5 a6) = Some (0, t2)
                   \<and> res' = t_regs t2 SYSCALL_RET"
    using task_syscall_success(2) [OF run pos] by simp
next
  assume "e_getregs_old env \<noteq> PtraceOk \<or> e_setregs_new env \<noteq> PtraceOk"
  then show "t_regs t' = t_regs t"
    using run by (rule task_syscall_early_failure [rotated])
next
  assume "ret < 0"
  then show "res' = res"
    using run by (rule task_syscall_failure [rotated])
qed

text \<open>
  Witness for C1 (the specification's scenario 3): \<^verbatim>\<open>getpid\<close> (syscall 39) run in a
  target whose pid is 1234 returns 0 with 1234 in \<^verbatim>\<open>*res\<close>, and leaves the registers and
  the two bytes at libc-base as they were.
\<close>

theorem task_syscall_frame_witness:
  "fst (the (task_syscall (env_returning 1234) 0x7f0000028000 target_idle 39 0 0 0 0 0 0 0)) = 0
   \<and> fst (snd (the (task_syscall (env_returning 1234) 0x7f0000028000 target_idle
                      39 0 0 0 0 0 0 0))) = 1234
   \<and> t_regs (snd (snd (the (task_syscall (env_returning 1234) 0x7f0000028000 target_idle
                      39 0 0 0 0 0 0 0)))) = t_regs target_idle
   \<and> read_bytes (t_mem (snd (snd (the (task_syscall (env_returning 1234) 0x7f0000028000
                      target_idle 39 0 0 0 0 0 0 0))))) 0x7f0000028000 (length SYSCALL_INSTR)
       = read_bytes (t_mem target_idle) 0x7f0000028000 (length SYSCALL_INSTR)"
proof -
  let ?r = "task_syscall (env_returning 1234) 0x7f0000028000 target_idle 39 0 0 0 0 0 0 0"
  have ev: "?r \<noteq> None \<and> fst (the ?r) = 0 \<and> fst (snd (the ?r)) = 1234"
    by (simp add: remote_eval)
  then obtain ret res' t' where run: "?r = Some (ret, res', t')"
    by (cases ?r) auto
  have peek: "transfers (e_peek_orig (env_returning 1234)) (length SYSCALL_INSTR)"
    by (simp add: env_returning_def transfers_def pio_of_def SYSCALL_INSTR_def)
  have poke: "transfers (e_poke_back (env_returning 1234)) (length SYSCALL_INSTR)"
    by (simp add: env_returning_def transfers_def pio_of_def SYSCALL_INSTR_def)
  have pos: "errnos_positive (env_returning 1234)"
    by (simp add: env_returning_def errnos_positive_def errno_ok_def)
  have ret: "ret = 0" and res: "res' = 1234"
    using ev run by simp_all
  show ?thesis
    using task_syscall_frame [OF run peek poke pos] run ret res by simp
qed

text \<open>
  Counterexample to C1 as stated: the registers are fetched, the scratch bytes saved,
  the syscall registers installed, and then \<^verbatim>\<open>PTRACE_CONT\<close> fails in \<open>wait_for_stop\<close>.
  The call returns -1 through \<^verbatim>\<open>poke_back\<close>, which restores the scratch bytes only: the
  target's program counter is left at libc-base, not at its pre-call value.
\<close>

theorem task_syscall_error_keeps_syscall_regs:
  "task_syscall env_cont_fails 0x7f0000028000 target_idle 39 0 0 0 0 0 0 0 \<noteq> None
   \<and> fst (the (task_syscall env_cont_fails 0x7f0000028000 target_idle 39 0 0 0 0 0 0 0)) = - 1
   \<and> t_regs (snd (snd (the (task_syscall env_cont_fails 0x7f0000028000 target_idle
         39 0 0 0 0 0 0 0)))) RIP = 0x7f0000028000
   \<and> t_regs target_idle RIP = 0x401020
   \<and> t_regs (snd (snd (the (task_syscall env_cont_fails 0x7f0000028000 target_idle
         39 0 0 0 0 0 0 0)))) \<noteq> t_regs target_idle"
proof -
  let ?r = "task_syscall env_cont_fails 0x7f0000028000 target_idle 39 0 0 0 0 0 0 0"
  have ev: "?r \<noteq> None \<and> fst (the ?r) = - 1
      \<and> t_regs (snd (snd (the ?r))) RIP = 0x7f0000028000
      \<and> t_regs target_idle RIP = 0x401020"
    by (simp add: remote_eval)
  then have "t_regs (snd (snd (the ?r))) RIP \<noteq> t_regs target_idle RIP"
    by simp
  then have "t_regs (snd (snd (the ?r))) \<noteq> t_regs target_idle"
    by metis
  then show ?thesis using ev by simp
qed

subsection \<open>task_mmap, task_malloc and task_open\<close>

lemma errno_not_failed:
  fixes e :: nat
  assumes "2 \<le> e" "e \<le> 4095"
  shows "(- of_nat e :: u64) \<noteq> MAP_FAILED" and "(- of_nat e :: u64) \<noteq> 0"
proof -
  have u: "unat (of_nat e :: u64) = e"
    using assms by (simp add: unat_of_nat)
  have "(of_nat e :: u64) \<noteq> 1"
    using u assms(1) by (metis Suc_1 unat_1 Suc_n_not_le_n)
  then show "(- of_nat e :: u64) \<noteq> MAP_FAILED"
    by (simp add: MAP_FAILED_def)
  have "(of_nat e :: u64) \<noteq> 0"
    using u assms(1) by (metis not_numeral_le_zero unat_0)
  then show "(- of_nat e :: u64) \<noteq> 0" by simp
qed

lemma flags_or_O_CREAT: "(flags OR O_CREAT) \<noteq> 0"
proof
  assume "flags OR O_CREAT = 0"
  then have "bit (flags OR O_CREAT) 6 = bit (0 :: u32) 6" by simp
  then show False by (simp add: bit_or_iff O_CREAT_def)
qed

text \<open>
  Claim C10, as amended. Let the remote-syscall sequence of the \<open>mmap\<close> that \<open>task_mmap\<close>
  issues, for any arguments, return \<open>ret\<close> with \<open>result\<close> in \<^verbatim>\<open>*res\<close>. When the sequence
  itself fails (\<open>ret < 0\<close>), \<open>task_mmap\<close> returns 0. When it succeeds, \<open>task_mmap\<close> returns
  \<open>result\<close> whatever it is, so a failed remote mmap hands back its negative errno as an
  unsigned address; and \<open>task_mmap\<close> returns 0 exactly when the sequence fails or the
  remote mmap itself returned 0. \<open>task_malloc\<close>, which calls it with its own arguments,
  compares the value with \<open>MAP_FAILED\<close> only: for every errno \<open>e\<close> from 2 to 4095 it
  returns the non-zero value \<open>-e\<close> as the allocation address, and only \<open>-1\<close> (\<open>-EPERM\<close>)
  is turned into 0.
\<close>

theorem task_mmap_returns_result:
  assumes run: "task_syscall env libc_base t NR_mmap addr len (scast prot) (scast flags)
                  (scast fd) off (e_result env)
                = Some (ret, result, t')"
  shows "(ret < 0 \<longrightarrow> task_mmap env libc_base t addr len prot flags fd off = Some (0, t'))
       \<and> (0 \<le> ret \<longrightarrow> task_mmap env libc_base t addr len prot flags fd off = Some (result, t'))
       \<and> (task_mmap env libc_base t addr len prot flags fd off = Some (0, t')
            \<longleftrightarrow> ret < 0 \<or> result = 0)
       \<and> (addr = 0 \<and> prot = PROT_READ OR PROT_WRITE \<and> flags = MAP_PRIVATE OR MAP_ANONYMOUS
            \<and> fd = - 1 \<and> off = 0 \<longrightarrow>
            task_malloc env libc_base t len
              = Some (if ret < 0 \<or> result = MAP_FAILED then 0 else result, t')
            \<and> (0 \<le> ret \<and> 2 \<le> e \<and> e \<le> 4095 \<and> result = - of_nat e \<longrightarrow>
                  task_malloc env libc_base t len = Some (- of_nat e, t')
                  \<and> (- of_nat e :: u64) \<noteq> 0))"
proof -
  have m: "task_mmap env libc_base t addr len prot flags fd off
             = Some (if ret < 0 then 0 else result, t')"
    using run by (simp add: task_mmap_def)
  have c1: "ret < 0 \<longrightarrow> task_mmap env libc_base t addr len prot flags fd off = Some (0, t')"
    and c2: "0 \<le> ret \<longrightarrow> task_mmap env libc_base t addr len prot flags fd off = Some (result, t')"
    and c3: "task_mmap env libc_base t addr len prot flags fd off = Some (0, t')
               \<longleftrightarrow> ret < 0 \<or> result = 0"
    unfolding m by auto
  have c4: "task_malloc env libc_base t len
              = Some (if ret < 0 \<or> result = MAP_FAILED then 0 else result, t')
            \<and> (0 \<le> ret \<and> 2 \<le> e \<and> e \<le> 4095 \<and> result = - of_nat e \<longrightarrow>
                  task_malloc env libc_base t len = Some (- of_nat e, t')
                  \<and> (- of_nat e :: u64) \<noteq> 0)"
    if pat: "addr = 0 \<and> prot = PROT_READ OR PROT_WRITE \<and> flags = MAP_PRIVATE OR MAP_ANONYMOUS
             \<and> fd = - 1 \<and> off = 0"
  proof -
    have mm: "task_mmap env libc_base t 0 len (PROT_READ OR PROT_WRITE)
                (MAP_PRIVATE OR MAP_ANONYMOUS) (- 1) 0
              = Some (if ret < 0 then 0 else result, t')"
      using m pat by simp
    have ml: "task_malloc env libc_base t len
                = Some (if ret < 0 \<or> result = MAP_FAILED then 0 else result, t')"
      unfolding task_malloc_def mm by (simp add: MAP_FAILED_def)
    have "task_malloc env libc_base t len = Some (- of_nat e, t') \<and> (- of_nat e :: u64) \<noteq> 0"
      if e: "0 \<le> ret \<and> 2 \<le> e \<and> e \<le> 4095 \<and> result = - of_nat e"
      unfolding ml using e errno_not_failed [of e] by simp
    then show ?thesis using ml by blast
  qed
  show ?thesis using c1 c2 c3 c4 by blast
qed

text \<open>
  The theorem at a remote mmap of 4096 bytes that fails with \<open>ENOMEM\<close> (12): the ptrace
  sequence succeeds, and \<open>task_mmap\<close> and \<open>task_malloc\<close> return \<open>-12\<close>, that is
  \<open>0xfffffffffffffff4\<close>.
\<close>

theorem task_mmap_returns_result_witness:
  "task_malloc (env_returning (- 12)) 0x7f0000028000 target_idle 4096 \<noteq> None
   \<and> fst (the (task_malloc (env_returning (- 12)) 0x7f0000028000 target_idle 4096))
       = 0xfffffffffffffff4
   \<and> fst (the (task_mmap (env_returning (- 12)) 0x7f0000028000 target_idle 0 4096
                  (PROT_READ OR PROT_WRITE) (MAP_PRIVATE OR MAP_ANONYMOUS) (- 1) 0))
       = 0xfffffffffffffff4"
proof -
  let ?env = "env_returning (- 12)"
  let ?r = "task_syscall ?env 0x7f0000028000 target_idle NR_mmap 0 4096
              (scast (PROT_READ OR PROT_WRITE)) (scast (MAP_PRIVATE OR MAP_ANONYMOUS))
              (scast (- 1 :: u32)) 0 (e_result ?env)"
  have ev: "?r \<noteq> None \<and> fst (the ?r) = 0 \<and> fst (snd (the ?r)) = - 12"
    by (simp add: remote_eval)
  then obtain ret result t' where run: "?r = Some (ret, result, t')"
    by (cases ?r) auto
  have ret: "0 \<le> ret" and res: "result = - of_nat 12"
    using ev run by simp_all
  have "task_mmap ?env 0x7f0000028000 target_idle 0 4096
              (PROT_READ OR PROT_WRITE) (MAP_PRIVATE OR MAP_ANONYMOUS) (- 1) 0
            = Some (result, t')"
    and "task_malloc ?env 0x7f0000028000 target_idle 4096 = Some (- of_nat 12, t')"
    using task_mmap_returns_result [OF run, of 12] ret res by (simp_all add: MAP_FAILED_def)
  then show ?thesis using res by simp
qed

text \<open>
  Counterexample to C10 as stated: a remote \<^verbatim>\<open>mmap\<close> with \<^verbatim>\<open>MAP_FIXED\<close> at address 0 that
  succeeds returns the address 0. The ptrace sequence succeeds (\<open>task_syscall\<close> returns
  0), and \<open>task_mmap\<close> returns 0.
\<close>

theorem task_mmap_returns_zero_on_success:
  "fst (the (task_syscall (env_returning 0) 0x7f0000028000 target_idle NR_mmap 0 4096
               (scast (PROT_READ OR PROT_WRITE))
               (scast (MAP_PRIVATE OR MAP_ANONYMOUS OR MAP_FIXED)) (scast (- 1 :: u32)) 0 0)) = 0
   \<and> task_mmap (env_returning 0) 0x7f0000028000 target_idle 0 4096
        (PROT_READ OR PROT_WRITE) (MAP_PRIVATE OR MAP_ANONYMOUS OR MAP_FIXED) (- 1) 0 \<noteq> None
   \<and> fst (the (task_mmap (env_returning 0) 0x7f0000028000 target_idle 0 4096
        (PROT_READ OR PROT_WRITE) (MAP_PRIVATE OR MAP_ANONYMOUS OR MAP_FIXED) (- 1) 0)) = 0"
  by (simp add: remote_eval)

text \<open>
  Claim C3 (the code at the failing input). The guard \<^verbatim>\<open>!(flags|O_CREAT)\<close> of
  \<open>task_open\<close> is false for every \<open>flags\<close>, so \<^verbatim>\<open>readlink\<close> and \<^verbatim>\<open>realpath\<close> are never
  consulted: replacing them changes nothing. Opening the symbolic link \<^verbatim>\<open>/tmp/link\<close>
  (to \<^verbatim>\<open>/tmp/real\<close>) with \<open>O_RDWR\<close> copies the ten bytes of \<^verbatim>\<open>/tmp/link\<close>, unresolved, into
  the scratch allocation at \<open>0x7f1000000000\<close> and returns the remote descriptor 3.
\<close>

theorem task_open_never_canonicalises:
  "(flags OR O_CREAT) \<noteq> 0
   \<and> task_open (oe\<lparr>o_readlink := rl, o_realpath := rp\<rparr>) libc_base t pathname flags mode
       = task_open oe libc_base t pathname flags mode
   \<and> fst (the (task_open oe_symlink 0x7f0000028000 target_idle ''/tmp/link'' O_RDWR 0)) = 3
   \<and> read_bytes (t_mem (snd (the (task_open oe_symlink 0x7f0000028000 target_idle
                                      ''/tmp/link'' O_RDWR 0)))) 0x7f1000000000 10
       = cstring ''/tmp/link''
   \<and> cstring ''/tmp/link'' \<noteq> cstring ''/tmp/real''"
proof (intro conjI)
  show "(flags OR O_CREAT) \<noteq> 0"
    by (rule flags_or_O_CREAT)
  show "task_open (oe\<lparr>o_readlink := rl, o_realpath := rp\<rparr>) libc_base t pathname flags mode
          = task_open oe libc_base t pathname flags mode"
    by (simp add: task_open_def flags_or_O_CREAT Let_def
          cong: option.case_cong prod.case_cong)
  show "fst (the (task_open oe_symlink 0x7f0000028000 target_idle ''/tmp/link'' O_RDWR 0)) = 3"
    by (simp add: remote_eval task_open_def oe_symlink_def O_CREAT_def O_RDWR_def)
  show "read_bytes (t_mem (snd (the (task_open oe_symlink 0x7f0000028000 target_idle
                                      ''/tmp/link'' O_RDWR 0)))) 0x7f1000000000 10
          = cstring ''/tmp/link''"
    apply (simp add: remote_eval task_open_def oe_symlink_def O_CREAT_def O_RDWR_def)
    apply (simp add: memcpy_to_task_def pio_of_def read_bytes_def write_bytes_def cstring_def
             SYSCALL_INSTR_def upt_rec)
    done
  show "cstring ''/tmp/link'' \<noteq> cstring ''/tmp/real''"
    by (simp add: cstring_def)
qed

subsection \<open>The GNU build ID note\<close>

lemma length_lower_hex [simp]: "length (lower_hex bs) = 2 * length bs"
  by (induction bs) (simp_all add: lower_hex_def)

lemma lower_hex_snoc:
  "lower_hex (bs @ [b]) = lower_hex bs @ [hex_digit (unat b div 16), hex_digit (unat b mod 16)]"
  by (simp add: lower_hex_def)

lemma build_id_loop_append:
  "build_id_loop desc (xs @ ys) buf =
     (case build_id_loop desc xs buf of None \<Rightarrow> None | Some b \<Rightarrow> build_id_loop desc ys b)"
  by (induction xs arbitrary: buf) (auto split: option.splits)

lemma put_hex_step:
  assumes k: "k < length desc" and cap: "2 * k + 1 < length buf0"
  shows "put_hex desc k (lower_hex (take k desc) @ drop (2 * k) buf0)
           = Some (lower_hex (take (Suc k) desc) @ drop (2 * Suc k) buf0)"
proof -
  let ?h = "lower_hex (take k desc)"
  have len: "length ?h = 2 * k" using k by simp
  have d1: "drop (2 * k) buf0 = buf0 ! (2 * k) # drop (Suc (2 * k)) buf0"
    using cap by (simp add: Cons_nth_drop_Suc)
  have d2: "drop (Suc (2 * k)) buf0 = buf0 ! Suc (2 * k) # drop (Suc (Suc (2 * k))) buf0"
    using cap by (simp add: Cons_nth_drop_Suc)
  have d: "drop (2 * k) buf0 = buf0 ! (2 * k) # buf0 ! Suc (2 * k) # drop (2 * Suc k) buf0"
    using d1 d2 by simp
  show ?thesis
    using k cap len
    apply (simp only: d)
    apply (simp add: put_hex_def store_def sprintf_02x_def Let_def take_Suc_conv_app_nth
          lower_hex_snoc list_update_append mult.commute)
    done
qed


lemma build_id_loop_inv:
  assumes "k \<le> length desc" "2 * length desc < length buf0"
  shows "build_id_loop desc [0..<k] buf0
           = Some (lower_hex (take k desc) @ drop (2 * k) buf0)"
  using assms
proof (induction k)
  case 0
  then show ?case by (simp add: lower_hex_def)
next
  case (Suc k)
  then have k: "k < length desc" and cap: "2 * k + 1 < length buf0"
    by simp_all
  have "build_id_loop desc [0..<k] buf0 = Some (lower_hex (take k desc) @ drop (2 * k) buf0)"
    using Suc by simp
  then show ?case
    using put_hex_step [OF k cap]
    by (simp add: build_id_loop_append)
qed

lemma note_build_id_ok:
  assumes pos: "0 < descsz" and len: "length desc = unat descsz" and small: "unat descsz < 2 ^ 31"
  shows "note_build_id junk descsz desc = Some (lower_hex desc @ [NUL])"
proof -
  let ?d = "unat descsz"
  let ?buf0 = "map junk [0..<unat (descsz * 2 + 1)]"
  have cap: "unat (descsz * 2 + 1) = 2 * ?d + 1"
    using small by (simp add: unat_word_ariths)
  have n: "unat (descsz - 1) = ?d - 1"
    using pos by (simp add: unat_sub word_le_nat_alt word_less_nat_alt Suc_leI)
  have dpos: "0 < ?d"
    using pos by (simp add: word_less_nat_alt)
  have l0: "length ?buf0 = 2 * ?d + 1"
    using cap by simp
  have loop: "build_id_loop desc [0..<?d - 1] ?buf0
                = Some (lower_hex (take (?d - 1) desc) @ drop (2 * (?d - 1)) ?buf0)"
    by (rule build_id_loop_inv) (use len l0 in simp_all)
  have last: "put_hex desc (?d - 1) (lower_hex (take (?d - 1) desc) @ drop (2 * (?d - 1)) ?buf0)
                = Some (lower_hex (take (Suc (?d - 1)) desc) @ drop (2 * Suc (?d - 1)) ?buf0)"
    by (rule put_hex_step) (use len l0 dpos in simp_all)
  have full: "take (Suc (?d - 1)) desc = desc"
    using len dpos by simp
  have rest: "drop (2 * Suc (?d - 1)) ?buf0 = [junk (2 * ?d)]"
    using dpos cap by (simp add: drop_map)
  have idx: "(?d - 1) * 2 + 2 = 2 * ?d"
    using dpos by simp
  have "store (2 * ?d) NUL (lower_hex desc @ [junk (2 * ?d)]) = Some (lower_hex desc @ [NUL])"
    using len by (simp add: store_def list_update_append)
  then show ?thesis
    unfolding note_build_id_def Let_def n idx
    using loop last full rest by simp
qed

lemma store_length: "store i c b = Some b' \<Longrightarrow> length b' = length b"
  by (auto simp: store_def split: if_splits)

lemma put_hex_length: "put_hex desc i b = Some b' \<Longrightarrow> length b' = length b"
  by (auto simp: put_hex_def Let_def split: if_splits option.splits dest!: store_length)

lemma build_id_loop_length:
  "build_id_loop desc is b = Some b' \<Longrightarrow> length b' = length b"
  by (induction "is" arbitrary: b) (auto split: option.splits dest!: put_hex_length)

lemma note_build_id_defined:
  assumes pos: "0 < descsz" and some: "note_build_id junk descsz desc = Some b"
  shows "unat descsz < 2 ^ 31"
proof -
  let ?d = "unat descsz"
  let ?buf0 = "map junk [0..<unat (descsz * 2 + 1)]"
  have n: "unat (descsz - 1) = ?d - 1"
    using pos by (simp add: unat_sub word_le_nat_alt word_less_nat_alt Suc_leI)
  have dpos: "0 < ?d"
    using pos by (simp add: word_less_nat_alt)
  obtain b1 b2 where b1: "build_id_loop desc [0..<?d - 1] ?buf0 = Some b1"
      and b2: "put_hex desc (?d - 1) b1 = Some b2"
      and st: "store ((?d - 1) * 2 + 2) NUL b2 = Some b"
    using some unfolding note_build_id_def Let_def n
    by (auto split: option.splits)
  have "length b2 = length ?buf0"
    using build_id_loop_length [OF b1] put_hex_length [OF b2] by simp
  moreover have "(?d - 1) * 2 + 2 < length b2"
    using st by (auto simp: store_def split: if_splits)
  ultimately have "2 * ?d < unat (descsz * 2 + 1)"
    using dpos by simp
  then have lt: "2 * ?d < (2 * ?d + 1) mod 2 ^ 32"
    by (simp add: unat_word_ariths mult.commute)
  have "(2 * ?d + 1) mod 2 ^ 32 \<le> 2 * ?d + 1"
    by (rule mod_less_eq_dividend)
  then have "(2 * ?d + 1) mod 2 ^ 32 = 2 * ?d + 1"
    using lt by linarith
  then have "2 * ?d + 1 < 2 ^ 32"
    by (metis mod_less_divisor zero_less_numeral zero_less_power)
  then show ?thesis by simp
qed

lemma hex_digit_in: "n < 16 \<Longrightarrow> hex_digit n \<in> set ''0123456789abcdef''"
  unfolding hex_digit_def by (rule nth_mem) simp

lemma lower_hex_digits: "set (lower_hex bs) \<subseteq> set ''0123456789abcdef''"
proof -
  have "hex_digit (unat b div 16) \<in> set ''0123456789abcdef''
        \<and> hex_digit (unat b mod 16) \<in> set ''0123456789abcdef''" for b :: u8
  proof -
    have "unat b < 2 ^ LENGTH(8)" by (rule unsigned_less)
    then have "unat b < 256" by simp
    then have "unat b div 16 < 16" and "unat b mod 16 < 16" by simp_all
    then show ?thesis using hex_digit_in by blast
  qed
  then show ?thesis
    unfolding lower_hex_def by (induction bs) auto
qed

lemma desc_2g_length: "length desc_2g = 2 ^ 31"
  unfolding desc_2g_def by (rule length_replicate)

text \<open>
  Claim C9. For a note with owner \<^verbatim>\<open>GNU\<close>, type \<^verbatim>\<open>NT_GNU_BUILD_ID\<close> and a descriptor
  of \<open>descsz > 0\<close> bytes: when \<open>descsz\<close> is below \<open>2^31\<close>, \<open>elf_object_note\<close> stores in
  \<^verbatim>\<open>build_id\<close> the string \<open>lower_hex desc\<close> followed by a NUL, two lowercase hexadecimal
  digits per descriptor byte, in order, \<open>2 * descsz\<close> characters, none of them NUL. From
  \<open>2^31\<close> on, the size \<^verbatim>\<open>descsz * 2 + 1\<close> of the allocation, computed in 32 bits, wraps:
  the block is shorter than the string and the stores run past its end, where the
  call has no defined result.
\<close>

theorem elf_object_note_build_id:
  assumes "name = ''GNU''" "ntype = NT_GNU_BUILD_ID" "0 < descsz" "length desc = unat descsz"
  shows "elf_object_note junk elf namesz name ntype descsz desc
           = (if unat descsz < 2 ^ 31
              then Some (elf\<lparr>elf_build_id := Some (lower_hex desc @ [NUL])\<rparr>)
              else None)
       \<and> length (lower_hex desc) = 2 * unat descsz
       \<and> set (lower_hex desc) \<subseteq> set ''0123456789abcdef''
       \<and> NUL \<notin> set (lower_hex desc)"
proof -
  have branch: "elf_object_note junk elf namesz name ntype descsz desc
      = map_option (\<lambda>b. elf\<lparr>elf_build_id := Some b\<rparr>) (note_build_id junk descsz desc)"
    using assms(1,2,3)
    by (simp add: elf_object_note_def ELF_NOTE_GNU_BUILD_ATTRIBUTE_PREFIX_def
          NT_GNU_BUILD_ID_def NT_GNU_BUILD_ATTRIBUTE_OPEN_def NT_GNU_BUILD_ATTRIBUTE_FUNC_def
          NT_VERSION_def)
  have small: "elf_object_note junk elf namesz name ntype descsz desc
        = Some (elf\<lparr>elf_build_id := Some (lower_hex desc @ [NUL])\<rparr>)"
    if "unat descsz < 2 ^ 31"
    using branch note_build_id_ok [OF assms(3,4) that] by simp
  have large: "elf_object_note junk elf namesz name ntype descsz desc = None"
    if big: "\<not> unat descsz < 2 ^ 31"
  proof (cases "note_build_id junk descsz desc")
    case None
    then show ?thesis using branch by simp
  next
    case (Some b)
    then show ?thesis using note_build_id_defined [OF assms(3) Some] big by simp
  qed
  have digits: "set (lower_hex desc) \<subseteq> set ''0123456789abcdef''"
    by (rule lower_hex_digits)
  have "NUL \<notin> set ''0123456789abcdef''"
    by (simp add: NUL_def)
  then have "NUL \<notin> set (lower_hex desc)"
    using digits by blast
  moreover have "length (lower_hex desc) = 2 * unat descsz"
    using assms(4) by simp
  ultimately show ?thesis
    using small large digits by simp
qed

text \<open>
  The theorem at two notes: the first three bytes of the build ID quoted in the source,
  \<^verbatim>\<open>49 c2 fa\<close>, are stored as \<^verbatim>\<open>49c2fa\<close>; with a descriptor of \<open>2^31\<close> bytes the block
  allocated has one byte and the call has no defined result.
\<close>

theorem elf_object_note_build_id_witness:
  "elf_object_note (\<lambda>i. CHR ''?'') \<lparr>elf_build_id = None\<rparr> 4 ''GNU'' NT_GNU_BUILD_ID 3
     [0x49, 0xc2, 0xfa]
   = Some \<lparr>elf_build_id = Some (''49c2fa'' @ [NUL])\<rparr>
   \<and> elf_object_note (\<lambda>i. CHR ''?'') \<lparr>elf_build_id = None\<rparr> 4 ''GNU'' NT_GNU_BUILD_ID
       0x80000000 desc_2g
     = None"
proof -
  have a: "elf_object_note (\<lambda>i. CHR ''?'') \<lparr>elf_build_id = None\<rparr> 4 ''GNU'' NT_GNU_BUILD_ID 3
             [0x49, 0xc2, 0xfa]
           = Some \<lparr>elf_build_id = Some (''49c2fa'' @ [NUL])\<rparr>"
    using elf_object_note_build_id [of "''GNU''" NT_GNU_BUILD_ID 3 "[0x49, 0xc2, 0xfa]"
            "\<lambda>i. CHR ''?''" "\<lparr>elf_build_id = None\<rparr>" 4]
    by (simp add: lower_hex_def hex_digit_def)
  have b: "elf_object_note (\<lambda>i. CHR ''?'') \<lparr>elf_build_id = None\<rparr> 4 ''GNU'' NT_GNU_BUILD_ID
             0x80000000 desc_2g = None"
    using elf_object_note_build_id [of "''GNU''" NT_GNU_BUILD_ID "0x80000000" desc_2g
            "\<lambda>i. CHR ''?''" "\<lparr>elf_build_id = None\<rparr>" 4]
    by (simp add: desc_2g_length)
  show ?thesis using a b by (rule conjI)
qed

subsection \<open>read_task_vmas: leaders and siblings\<close>

lemma run_start_le: "run_start names i \<le> i"
  by (induction i) auto

lemma run_start_append:
  "i < length xs \<Longrightarrow> run_start (xs @ ys) i = run_start xs i"
  by (induction i) (auto simp: nth_append)

lemma insert_vma_vmas:
  "task_vmas (insert_vma task vma prev) = link_vma (task_vmas task) vma prev"
  by (simp add: insert_vma_def link_vma_def Let_def split: option.splits)


lemma link_vma_simps:
  "link_vma vs vma None = vs"
  "link_vma vs vma (Some p) =
     (if vma_name (vs ! p) = vma_name (vs ! vma)
      then (case vma_leader (vs ! p) of
              None \<Rightarrow> vs
            | Some leader \<Rightarrow>
                (vs[vma := (vs ! vma)\<lparr>vma_leader := Some leader\<rparr>])
                  [leader := ((vs[vma := (vs ! vma)\<lparr>vma_leader := Some leader\<rparr>]) ! leader)
                     \<lparr>vma_siblings := vma #
                        vma_siblings ((vs[vma := (vs ! vma)\<lparr>vma_leader := Some leader\<rparr>]) ! leader)\<rparr>])
      else vs)"
  by (simp_all add: link_vma_def list_add_def cong: option.case_cong)

lemma run_start_idem: "run_start names (run_start names i) = run_start names i"
  by (induction i) auto

lemma map_update_field:
  assumes "f y = f (xs ! i)"
  shows "map f (xs[i := y]) = map f xs"
proof (cases "i < length xs")
  case True
  then show ?thesis using assms by (simp add: map_update list_update_same_conv)
next
  case False
  then show ?thesis by (simp add: list_update_beyond)
qed

lemma link_vma_names:
  "map vma_name (link_vma vs vma prev) = map vma_name vs"
proof (cases prev)
  case None
  then show ?thesis by (simp add: link_vma_simps)
next
  case (Some p)
  show ?thesis
  proof (cases "vma_name (vs ! p) = vma_name (vs ! vma)")
    case False
    then show ?thesis using Some by (simp add: link_vma_simps)
  next
    case True
    show ?thesis
    proof (cases "vma_leader (vs ! p)")
      case None
      then show ?thesis using Some True by (simp add: link_vma_simps)
    next
      case (Some leader)
      let ?vs1 = "vs[vma := (vs ! vma)\<lparr>vma_leader := Some leader\<rparr>]"
      have 1: "map vma_name ?vs1 = map vma_name vs"
        by (rule map_update_field) simp
      have "map vma_name (?vs1[leader := (?vs1 ! leader)
               \<lparr>vma_siblings := vma # vma_siblings (?vs1 ! leader)\<rparr>]) = map vma_name ?vs1"
        by (rule map_update_field) simp
      then show ?thesis
        using \<open>prev = Some p\<close> True Some 1 by (simp add: link_vma_simps)
    qed
  qed
qed

lemma link_vma_length [simp]: "length (link_vma vs vma prev) = length vs"
  using link_vma_names [of vs vma prev] by (metis length_map)

lemma vmas_linkedI:
  assumes "\<And>i. i < length vs \<Longrightarrow> vma_leader (vs ! i) = Some (run_start (map vma_name vs) i)"
      and "\<And>i. i < length vs \<Longrightarrow> run_start (map vma_name vs) i = i \<Longrightarrow>
             set (vma_siblings (vs ! i))
               = {j. j < length vs \<and> j \<noteq> i \<and> run_start (map vma_name vs) j = i}"
  shows "vmas_linked vs"
  using assms unfolding vmas_linked_def by blast

lemma vmas_linkedD:
  assumes "vmas_linked vs" "i < length vs"
  shows "vma_leader (vs ! i) = Some (run_start (map vma_name vs) i)"
    and "run_start (map vma_name vs) i = i \<Longrightarrow>
           set (vma_siblings (vs ! i))
             = {j. j < length vs \<and> j \<noteq> i \<and> run_start (map vma_name vs) j = i}"
  using assms unfolding vmas_linked_def by blast+

lemma run_set_snoc:
  "{j. j < Suc (length xs) \<and> j \<noteq> i \<and> run_start (xs @ [y]) j = i}
     = {j. j < length xs \<and> j \<noteq> i \<and> run_start xs j = i}
       \<union> (if length xs \<noteq> i \<and> run_start (xs @ [y]) (length xs) = i then {length xs} else {})"
  by (auto simp: less_Suc_eq run_start_append)

lemma run_set_above: "{j. j < k \<and> j \<noteq> k \<and> run_start xs j = k} = {}"
  using run_start_le [of xs] by (auto simp: not_less [symmetric] le_less_trans)

lemma link_step:
  assumes inv: "vmas_linked vs"
      and lead: "vma_leader v = Some (length vs)" and sib: "vma_siblings v = []"
  shows "vmas_linked (link_vma (vs @ [v]) (length vs) (prev_of vs))"
proof -
  let ?k = "length vs"
  let ?names = "map vma_name vs"
  let ?names1 = "?names @ [vma_name v]"
  let ?R = "link_vma (vs @ [v]) ?k (prev_of vs)"
  have names: "map vma_name ?R = ?names1"
    by (simp add: link_vma_names)
  have len: "length ?R = Suc (length ?names)"
    by simp
  have old: "run_start ?names1 i = run_start ?names i" if "i < ?k" for i
    using that by (simp add: run_start_append)
  have oldl: "vma_leader (vs ! i) = Some (run_start ?names1 i)" if "i < ?k" for i
    using vmas_linkedD(1) [OF inv that] old [OF that] by simp
  have olds: "set (vma_siblings (vs ! i))
                = {j. j < length ?names \<and> j \<noteq> i \<and> run_start ?names j = i}"
    if "i < ?k" "run_start ?names1 i = i" for i
    using vmas_linkedD(2) [OF inv that(1)] old [OF that(1)] that(2) by simp
  show ?thesis
  proof (cases "vs = []")
    case True
    then have "?R = [v]" by (simp add: prev_of_def link_vma_simps)
    then show ?thesis using lead sib True by (auto simp: vmas_linked_def)
  next
    case False
    then obtain p where k: "?k = Suc p" by (cases vs) auto
    have prev: "prev_of vs = Some p"
      using False k by (simp add: prev_of_def)
    have vp: "(vs @ [v]) ! p = vs ! p" and vk: "(vs @ [v]) ! ?k = v"
      using k by (simp_all add: nth_append)
    have np: "?names1 ! p = vma_name (vs ! p)" and nk: "?names1 ! Suc p = vma_name v"
      using k by (simp_all add: nth_append)
    have lp: "vma_leader (vs ! p) = Some (run_start ?names p)"
      using vmas_linkedD(1) [OF inv, of p] k by simp
    have rsk: "run_start ?names1 ?k
                 = (if vma_name (vs ! p) = vma_name v then run_start ?names p else ?k)"
      using np nk k old [of p] by simp
    show ?thesis
    proof (cases "vma_name (vs ! p) = vma_name v")
      case diff: False
      have R: "?R = vs @ [v]"
        using prev diff vp vk by (simp add: link_vma_simps)
      have rk: "run_start ?names1 (length ?names) = length ?names"
        using rsk diff by simp
      show ?thesis
      proof (rule vmas_linkedI)
        fix i assume "i < length ?R"
        then consider "i < ?k" | "i = ?k" unfolding len by fastforce
        note i = this
        from i show "vma_leader (?R ! i) = Some (run_start (map vma_name ?R) i)"
        proof cases
          case 1
          have el: "vma_leader (?R ! i) = vma_leader (vs ! i)"
            unfolding R using 1 by (simp add: nth_append)
          show ?thesis unfolding names el using oldl [OF 1] .
        next
          case 2
          have el: "vma_leader (?R ! i) = Some ?k"
            unfolding R using 2 lead by simp
          show ?thesis unfolding names el using rk 2 by simp
        qed
        assume self: "run_start (map vma_name ?R) i = i"
        have tgt: "{j. j < length ?R \<and> j \<noteq> i \<and> run_start (map vma_name ?R) j = i}
                     = {j. j < length ?names \<and> j \<noteq> i \<and> run_start ?names j = i}"
          unfolding names len run_set_snoc rk by simp
        from i show "set (vma_siblings (?R ! i))
            = {j. j < length ?R \<and> j \<noteq> i \<and> run_start (map vma_name ?R) j = i}"
        proof cases
          case 1
          have self1: "run_start ?names1 i = i" using self unfolding names .
          have sibs: "vma_siblings (?R ! i) = vma_siblings (vs ! i)"
            unfolding R using 1 by (simp add: nth_append)
          show ?thesis unfolding tgt sibs using olds [OF 1 self1] .
        next
          case 2
          have "{j. j < length ?names \<and> j \<noteq> i \<and> run_start ?names j = i} = {}"
            using run_set_above [of "?k" ?names] 2 by simp
          moreover have "vma_siblings (?R ! i) = []"
            unfolding R using sib 2 by simp
          ultimately show ?thesis unfolding tgt by simp
        qed
      qed
    next
      case same: True
      let ?l = "run_start ?names p"
      have l: "?l < ?k"
        using run_start_le [of ?names p] k by simp
      have rk: "run_start ?names1 (length ?names) = ?l"
        using rsk same by simp
      let ?vl = "(vs ! ?l)\<lparr>vma_siblings := ?k # vma_siblings (vs ! ?l)\<rparr>"
      have R: "?R = (vs[?l := ?vl]) @ [v\<lparr>vma_leader := Some ?l\<rparr>]"
        using prev same vp vk lp l
        by (simp add: link_vma_simps nth_append list_update_append)
      show ?thesis
      proof (rule vmas_linkedI)
        fix i assume "i < length ?R"
        then consider "i < ?k" | "i = ?k" unfolding len by fastforce
        note i = this
        from i show "vma_leader (?R ! i) = Some (run_start (map vma_name ?R) i)"
        proof cases
          case 1
          have "vma_leader ((vs[?l := ?vl]) ! i) = vma_leader (vs ! i)"
            using 1 by (cases "i = ?l") simp_all
          then have el: "vma_leader (?R ! i) = vma_leader (vs ! i)"
            unfolding R using 1 by (simp add: nth_append)
          show ?thesis unfolding names el using oldl [OF 1] .
        next
          case 2
          have el: "vma_leader (?R ! i) = Some ?l"
            unfolding R using 2 by (simp add: nth_append)
          show ?thesis unfolding names el using rk 2 by simp
        qed
        assume self: "run_start (map vma_name ?R) i = i"
        have self1: "run_start ?names1 i = i" using self unfolding names .
        have tgt: "{j. j < length ?R \<and> j \<noteq> i \<and> run_start (map vma_name ?R) j = i}
                     = {j. j < length ?names \<and> j \<noteq> i \<and> run_start ?names j = i}
                       \<union> (if ?l = i then {?k} else {})"
          unfolding names len run_set_snoc rk using l by auto
        from i show "set (vma_siblings (?R ! i))
            = {j. j < length ?R \<and> j \<noteq> i \<and> run_start (map vma_name ?R) j = i}"
        proof cases
          case 2
          then have False using self1 rk l by simp
          then show ?thesis ..
        next
          case 1
          show ?thesis
          proof (cases "i = ?l")
            case True
            have sibs: "set (vma_siblings (?R ! i)) = insert ?k (set (vma_siblings (vs ! i)))"
              unfolding R using 1 True by (simp add: nth_append)
            show ?thesis unfolding tgt sibs using olds [OF 1 self1] True by simp
          next
            case False
            have sibs: "vma_siblings (?R ! i) = vma_siblings (vs ! i)"
              unfolding R using 1 False by (simp add: nth_append)
            show ?thesis unfolding tgt sibs using olds [OF 1 self1] False by simp
          qed
        qed
      qed
    qed
  qed
qed

lemma prev_of_snoc: "prev_of (vs @ [v]) = Some (length vs)"
  by (simp add: prev_of_def)

lemma read_maps_lines_linked:
  assumes "vmas_linked (task_vmas task)" "prev = prev_of (task_vmas task)"
  shows "vmas_linked (task_vmas (snd (read_maps_lines ls prev task)))
       \<and> map vma_name (task_vmas (snd (read_maps_lines ls prev task)))
           = map vma_name (task_vmas task) @ map ml_name (parsed_lines ls)"
  using assms
proof (induction ls arbitrary: task prev)
  case Nil
  then show ?case by (simp add: parsed_lines_def)
next
  case (Cons l ls)
  show ?case
  proof (cases "ml_fields l \<le> 0")
    case True
    then show ?thesis using Cons.prems by (simp add: parsed_lines_def)
  next
    case False
    let ?vs = "task_vmas task"
    let ?k = "length ?vs"
    define vma where "vma = alloc_vma\<lparr>vma_start := ml_start l, vma_end := ml_end l,
                    vma_perms := ml_perms l, vma_prot := perms2prot (ml_perms l),
                    vma_offset := ml_offset l, vma_maj := ml_maj l, vma_min := ml_min l,
                    vma_inode := ml_inode l, vma_name := ml_name l,
                    vma_type := get_vma_type (task_exe task) (ml_name l),
                    vma_leader := Some ?k\<rparr>"
    define task3 where "task3 =
       (let task1 = task\<lparr>task_vmas := task_vmas task @ [vma]\<rparr>;
            task2 = (if task_libc_vma task1 = None \<and> vma_type vma = VMA_LIBC
                        \<and> (vma_prot vma AND PROT_EXEC) \<noteq> 0
                     then task1\<lparr>task_libc_vma := Some ?k\<rparr> else task1)
        in (if task_stack task2 = None \<and> vma_type vma = VMA_STACK
                     then task2\<lparr>task_stack := Some ?k\<rparr> else task2))"
    define task' where "task' = insert_vma task3 ?k prev"
    have step: "read_maps_lines (l # ls) prev task = read_maps_lines ls (Some ?k) task'"
      using False by (simp add: Let_def task'_def task3_def vma_def)
    have v3: "task_vmas task3 = ?vs @ [vma]"
      by (simp add: task3_def Let_def)
    have vs': "task_vmas task' = link_vma (?vs @ [vma]) ?k (prev_of ?vs)"
      using Cons.prems(2) by (simp add: task'_def insert_vma_vmas v3)
    have lead: "vma_leader vma = Some ?k" and sib: "vma_siblings vma = []"
      and name: "vma_name vma = ml_name l"
      by (simp_all add: vma_def alloc_vma_def mk_vma_def)
    have inv': "vmas_linked (task_vmas task')"
      unfolding vs' using Cons.prems(1) lead sib by (rule link_step)
    have names': "map vma_name (task_vmas task') = map vma_name ?vs @ [ml_name l]"
      unfolding vs' by (simp add: link_vma_names name)
    have "length (task_vmas task') = Suc ?k"
      unfolding vs' by simp
    then have prev': "Some ?k = prev_of (task_vmas task')"
      by (auto simp: prev_of_def)
    have pl: "parsed_lines (l # ls) = l # parsed_lines ls"
      using False by (simp add: parsed_lines_def)
    show ?thesis
      unfolding step using Cons.IH [OF inv' prev'] names' pl by simp
  qed
qed

lemma vmas_linked_Nil: "vmas_linked []"
  by (simp add: vmas_linked_def)

lemma read_task_vmas_linked:
  assumes "update \<or> task_vmas task = []"
  shows "map vma_name (task_vmas (snd (read_task_vmas task update (Some lines))))
           = map ml_name (parsed_lines lines)
       \<and> (\<forall>i < length (parsed_lines lines).
            vma_leader (task_vmas (snd (read_task_vmas task update (Some lines))) ! i)
              = Some (run_start (map ml_name (parsed_lines lines)) i)
            \<and> (run_start (map ml_name (parsed_lines lines)) i = i \<longrightarrow>
                 set (vma_siblings (task_vmas (snd (read_task_vmas task update (Some lines))) ! i))
                   = {j. j < length (parsed_lines lines) \<and> j \<noteq> i
                         \<and> run_start (map ml_name (parsed_lines lines)) j = i}))"
proof -
  define task0 where "task0 = (if update then free_task_vmas task else task)"
  have empty: "task_vmas task0 = []"
    using assms by (auto simp: task0_def free_task_vmas_def)
  have run: "read_task_vmas task update (Some lines) = read_maps_lines lines None task0"
    by (simp add: read_task_vmas_def task0_def)
  have inv: "vmas_linked (task_vmas task0)" and prev: "None = prev_of (task_vmas task0)"
    using empty by (simp_all add: vmas_linked_Nil prev_of_def)
  let ?vs = "task_vmas (snd (read_maps_lines lines None task0))"
  have linked: "vmas_linked ?vs"
    and names: "map vma_name ?vs = map ml_name (parsed_lines lines)"
    using read_maps_lines_linked [OF inv prev, of lines] empty by simp_all
  have len: "length ?vs = length (parsed_lines lines)"
    using names by (metis length_map)
  show ?thesis
    unfolding run using linked names len
    unfolding vmas_linked_def by simp
qed

lemma names_split:
  "map ml_name (parsed_lines lines_split)
     = [''/usr/lib64/libc.so.6'', [], ''/usr/lib64/libc.so.6'']"
  by (simp add: parsed_lines_def lines_split_def mk_line_def)

text \<open>
  Counterexample to C7 as stated: libc's first mapping, an anonymous mapping, then
  another mapping of libc. The third VMA has the path name of the first, yet it is its
  own leader and is not in the first VMA's sibling list: \<^verbatim>\<open>insert_vma\<close> compares the
  name with the previous line's only.
\<close>

theorem read_task_vmas_split_file_two_leaders:
  "vma_name (task_vmas (snd (read_task_vmas (task_init 1234 ''/usr/bin/hello'' fto_none)
       False (Some lines_split))) ! 0) = ''/usr/lib64/libc.so.6''
   \<and> vma_name (task_vmas (snd (read_task_vmas (task_init 1234 ''/usr/bin/hello'' fto_none)
       False (Some lines_split))) ! 2) = ''/usr/lib64/libc.so.6''
   \<and> vma_leader (task_vmas (snd (read_task_vmas (task_init 1234 ''/usr/bin/hello'' fto_none)
       False (Some lines_split))) ! 2) = Some 2
   \<and> 2 \<notin> set (vma_siblings (task_vmas (snd (read_task_vmas
       (task_init 1234 ''/usr/bin/hello'' fto_none) False (Some lines_split))) ! 0))"
proof -
  let ?task = "task_init 1234 ''/usr/bin/hello'' fto_none"
  let ?vs = "task_vmas (snd (read_task_vmas ?task False (Some lines_split)))"
  have empty: "False \<or> task_vmas ?task = []"
    by (simp add: task_init_def)
  note L = read_task_vmas_linked [OF empty, of lines_split, unfolded names_split]
  have len: "length (parsed_lines lines_split) = 3"
    using arg_cong [OF names_split, of length] by simp
  have names: "map vma_name ?vs = [''/usr/lib64/libc.so.6'', [], ''/usr/lib64/libc.so.6'']"
    using L by simp
  have lenvs: "length ?vs = 3"
    using arg_cong [OF names, of length] by simp
  have "vma_name (?vs ! 0) = map vma_name ?vs ! 0" and "vma_name (?vs ! 2) = map vma_name ?vs ! 2"
    using lenvs by (simp_all add: nth_map del: map_eq_Cons_conv)
  then have n0: "vma_name (?vs ! 0) = ''/usr/lib64/libc.so.6''"
    and n2: "vma_name (?vs ! 2) = ''/usr/lib64/libc.so.6''"
    unfolding names by simp_all
  have rs2: "run_start [''/usr/lib64/libc.so.6'', [], ''/usr/lib64/libc.so.6''] 2 = 2"
    and rs0: "run_start [''/usr/lib64/libc.so.6'', [], ''/usr/lib64/libc.so.6''] 0 = 0"
    by (simp_all add: numeral_2_eq_2)
  have l2: "vma_leader (?vs ! 2) = Some 2"
    using L len rs2 by simp
  have "set (vma_siblings (?vs ! 0))
          = {j. j < 3 \<and> j \<noteq> 0
               \<and> run_start [''/usr/lib64/libc.so.6'', [], ''/usr/lib64/libc.so.6''] j = 0}"
    using L len rs0 by simp
  then have "2 \<notin> set (vma_siblings (?vs ! 0))"
    using rs2 by simp
  then show ?thesis
    using n0 n2 l2 by simp
qed

text \<open>
  Claim C7, as amended. After \<open>read_task_vmas\<close> completes on a listing (read into an
  empty arena), the VMAs are the lines up to the first one \<^verbatim>\<open>sscanf\<close> converts nothing
  of; every VMA's leader field points to the first VMA of the run of consecutive lines
  with its path name that it lies in, and the sibling list of such a leader holds exactly
  the other VMAs of that run. VMAs of one file whose lines are separated by a line with
  another path name get leaders of their own.
\<close>

theorem read_task_vmas_leaders:
  assumes "update \<or> task_vmas task = []"
  shows "map vma_name (task_vmas (snd (read_task_vmas task update (Some lines))))
           = map ml_name (parsed_lines lines)
       \<and> (\<forall>i < length (parsed_lines lines).
            vma_leader (task_vmas (snd (read_task_vmas task update (Some lines))) ! i)
              = Some (run_start (map ml_name (parsed_lines lines)) i)
            \<and> (run_start (map ml_name (parsed_lines lines)) i = i \<longrightarrow>
                 set (vma_siblings (task_vmas (snd (read_task_vmas task update (Some lines))) ! i))
                   = {j. j < length (parsed_lines lines) \<and> j \<noteq> i
                         \<and> run_start (map ml_name (parsed_lines lines)) j = i}))"
  using assms by (rule read_task_vmas_linked)

lemma names_adjacent:
  "map ml_name (parsed_lines lines_adjacent)
     = [''/usr/lib64/libc.so.6'', ''/usr/lib64/libc.so.6'', ''[stack]'']"
  by (simp add: parsed_lines_def lines_adjacent_def mk_line_def)

text \<open>
  Witness for C7: two adjacent mappings of libc and the stack. The second VMA's leader is
  the first, whose sibling list holds exactly the second; the stack is its own leader.
\<close>

theorem read_task_vmas_leaders_witness:
  "vma_leader (task_vmas (snd (read_task_vmas (task_init 1234 ''/usr/bin/hello'' fto_none)
       False (Some lines_adjacent))) ! 1) = Some 0
   \<and> set (vma_siblings (task_vmas (snd (read_task_vmas
       (task_init 1234 ''/usr/bin/hello'' fto_none) False (Some lines_adjacent))) ! 0)) = {1}
   \<and> vma_leader (task_vmas (snd (read_task_vmas (task_init 1234 ''/usr/bin/hello'' fto_none)
       False (Some lines_adjacent))) ! 2) = Some 2"
proof -
  let ?task = "task_init 1234 ''/usr/bin/hello'' fto_none"
  let ?vs = "task_vmas (snd (read_task_vmas ?task False (Some lines_adjacent)))"
  let ?names = "[''/usr/lib64/libc.so.6'', ''/usr/lib64/libc.so.6'', ''[stack]'']"
  have empty: "False \<or> task_vmas ?task = []"
    by (simp add: task_init_def)
  note L = read_task_vmas_leaders [OF empty, of lines_adjacent, unfolded names_adjacent]
  have len: "length (parsed_lines lines_adjacent) = 3"
    using arg_cong [OF names_adjacent, of length] by simp
  have rs: "run_start ?names 0 = 0" "run_start ?names 1 = 0" "run_start ?names 2 = 2"
    by (simp_all add: numeral_2_eq_2)
  have l1: "vma_leader (?vs ! 1) = Some 0" and l2: "vma_leader (?vs ! 2) = Some 2"
    using L len rs by simp_all
  have "set (vma_siblings (?vs ! 0)) = {j. j < 3 \<and> j \<noteq> 0 \<and> run_start ?names j = 0}"
    using L len rs(1) by simp
  also have "\<dots> = {1}"
  proof (rule set_eqI)
    fix j :: nat
    consider "j = 0" | "j = 1" | "j = 2" | "3 \<le> j" by linarith
    then show "j \<in> {j. j < 3 \<and> j \<noteq> 0 \<and> run_start ?names j = 0} \<longleftrightarrow> j \<in> {1}"
    proof cases
      case 1
      then show ?thesis by simp
    next
      case 2
      then show ?thesis using rs(2) by simp
    next
      case 3
      then show ?thesis using rs(3) by simp
    next
      case 4
      then show ?thesis by simp
    qed
  qed
  finally have s0: "set (vma_siblings (?vs ! 0)) = {1}" .
  show ?thesis
    using l1 l2 s0 by (intro conjI)
qed

subsection \<open>open_task: libc and stack\<close>





















subsection \<open>vma_peek_phdr: the load offset and the siblings' voffset\<close>

lemma set_voffsets_length [simp]: "length (set_voffsets walk off v vs) = length vs"
  by (induction walk arbitrary: vs) simp_all

lemma set_voffsets_offset [simp]:
  "vma_offset (set_voffsets walk off v vs ! s) = vma_offset (vs ! s)"
proof (induction walk arbitrary: vs)
  case Nil
  then show ?case by simp
next
  case (Cons a walk)
  have "vma_offset ((vs[a := (vs ! a)\<lparr>vma_voffset := v\<rparr>]) ! s) = vma_offset (vs ! s)"
    by (cases "a < length vs"; cases "a = s") (simp_all add: list_update_beyond)
  then show ?case using Cons.IH by simp
qed

lemma set_voffsets_start [simp]:
  "vma_start (set_voffsets walk off v vs ! s) = vma_start (vs ! s)"
proof (induction walk arbitrary: vs)
  case Nil
  then show ?case by simp
next
  case (Cons a walk)
  have "vma_start ((vs[a := (vs ! a)\<lparr>vma_voffset := v\<rparr>]) ! s) = vma_start (vs ! s)"
    by (cases "a < length vs"; cases "a = s") (simp_all add: list_update_beyond)
  then show ?case using Cons.IH by simp
qed


lemma peek_loop_length [simp]: "length (snd (peek_loop ps walk lo vs)) = length vs"
  by (induction ps arbitrary: lo vs) simp_all

lemma peek_loop_offset [simp]:
  "vma_offset (snd (peek_loop ps walk lo vs) ! s) = vma_offset (vs ! s)"
  by (induction ps arbitrary: lo vs) simp_all

lemma peek_loop_start [simp]:
  "vma_start (snd (peek_loop ps walk lo vs) ! s) = vma_start (vs ! s)"
  by (induction ps arbitrary: lo vs) simp_all



text \<open>For a leader the walk is its sibling list.\<close>

lemma siblings_walk_leader:
  "vma_leader (vs ! idx) = Some idx \<Longrightarrow> siblings_walk vs idx = vma_siblings (vs ! idx)"
  by (simp add: siblings_walk_def)







subsection \<open>task_vma_symbol_value\<close>

text \<open>
  Claim C2. \<^verbatim>\<open>task_vma_symbol_value\<close> on the symbol \<open>foo\<close> (\<^verbatim>\<open>st_value\<close> 0x600, in the text
  segment) of the shared library \<open>libfoo\<close>: the two VMAs are the text at 0x7f0000000000
  (file offset 0) and the data at 0x7f0000002000 (file offset 0x1000), both with \<open>voffset\<close>
  0, and the leader is marked as a shared library. The loop leaves at the data VMA,
  the first sibling whose file offset is above \<^verbatim>\<open>st_value\<close>, and the address returned is
  that VMA's start plus \<^verbatim>\<open>st_value\<close> minus its file offset: 0x7f0000001600, in the hole
  between the two mappings. Start plus \<^verbatim>\<open>st_value\<close> minus \<open>voffset\<close> is 0x7f0000000600 for
  the text segment, which contains the symbol, and 0x7f0000002600 for the data segment
  (the one the search by \<open>voffset\<close> of the specification stops at, \<open>spec_resolve\<close>): the
  address returned is neither. On libc as the claim maps it, \<^verbatim>\<open>printf\<close> with \<^verbatim>\<open>st_value\<close>
  0x6f3d0 resolves to 0x7f000006f3d0.
\<close>

theorem task_vma_symbol_value_next_segment:
  "map (\<lambda>v. (vma_start v, vma_end v, vma_offset v, vma_voffset v)) (task_vmas task_libfoo)
     = [(0x7f0000000000, 0x7f0000001000, 0, 0), (0x7f0000002000, 0x7f0000003000, 0x1000, 0)]
   \<and> vma_is_share_lib (task_vmas task_libfoo ! 0)
   \<and> task_vma_symbol_value (task_vmas task_libfoo) sym_foo = 0x7f0000001600
   \<and> map (\<lambda>v. vma_start v + (sym_st_value sym_foo - vma_voffset v)) (task_vmas task_libfoo)
       = [0x7f0000000600, 0x7f0000002600]
   \<and> spec_resolve (task_vmas task_libfoo) (sym_st_value sym_foo) = Some 0x7f0000002600
   \<and> task_vma_symbol_value (task_vmas task_libc_peeked) sym_printf = 0x7f000006f3d0"
  by code_simp

subsection \<open>parse_config: the file of --map\<close>

text \<open>
  Claim C8. For every state of the variables at the end of the option loop of
  \<^verbatim>\<open>parse_config\<close> in which \<^verbatim>\<open>--map file=F\<close> was given with an absolute path \<open>F\<close>, and
  which passes the checks that come first (a process ID was given and the process
  exists; an output file was given if \<^verbatim>\<open>--dump\<close> asks for one): the process exits with
  \<^verbatim>\<open>EEXIST\<close> if \<open>F\<close> does not exist, with \<^verbatim>\<open>ENOENT\<close> if it exists and is not a regular
  file, and with \<^verbatim>\<open>EINVAL\<close> if it is a regular file of size 0.
\<close>

theorem parse_config_map_file_exit_codes:
  assumes "target_pid cfg \<noteq> - 1"
      and "proc_pid_exist env (target_pid cfg)"
      and "flag_dump_vma cfg \<or> flag_dump_addr cfg \<Longrightarrow> output_file cfg \<noteq> None"
      and "map_file cfg = Some F"
      and "take 1 F = ''/''"
  shows "(\<not> fexist env F \<longrightarrow> parse_config env cfg = Inl EEXIST)
       \<and> (fexist env F \<and> \<not> fregular env F \<longrightarrow> parse_config env cfg = Inl ENOENT)
       \<and> (fexist env F \<and> fregular env F \<and> fsize env F = 0
            \<longrightarrow> parse_config env cfg = Inl EINVAL)"
  using assms
  by (auto simp: parse_config_def check_map_file_def Let_def)

text \<open>
  The theorem at \<^verbatim>\<open>ultask --pid 1234 --map file=/tmp/patch.o\<close>, in the three states of
  the file system.
\<close>

theorem parse_config_map_file_exit_codes_witness:
  "parse_config fs_absent cfg_map = Inl EEXIST
   \<and> parse_config fs_directory cfg_map = Inl ENOENT
   \<and> parse_config fs_empty cfg_map = Inl EINVAL"
  using parse_config_map_file_exit_codes [of cfg_map fs_absent "''/tmp/patch.o''"]
        parse_config_map_file_exit_codes [of cfg_map fs_directory "''/tmp/patch.o''"]
        parse_config_map_file_exit_codes [of cfg_map fs_empty "''/tmp/patch.o''"]
  by (simp add: cfg_map_def config_init_def fs_absent_def fs_directory_def fs_empty_def)

text \<open>
  Without the checks that come first the exit code is theirs: for
  \<^verbatim>\<open>ultask --map file=/tmp/patch.o\<close>, with no process ID and no such file, the process
  exits with 1, not with \<^verbatim>\<open>EEXIST\<close>.
\<close>

theorem parse_config_no_pid_exits_1:
  "map_file cfg_map_no_pid = Some ''/tmp/patch.o''
   \<and> \<not> fexist fs_absent ''/tmp/patch.o''
   \<and> parse_config fs_absent cfg_map_no_pid = Inl 1
   \<and> EEXIST \<noteq> 1"
  by (simp add: parse_config_def cfg_map_no_pid_def config_init_def fs_absent_def EEXIST_def)

end
